theory Spec2Isabelle
  imports Complex_Main "HOL-Library.Log_Nat" "HOL-Library.Word"
begin

section \<open>JavaScript numbers\<close>

text \<open>
  The screen is TypeScript: every \<^verbatim>\<open>number\<close> is an IEEE 754 binary64 value. A number is
  modelled as not-a-number, one of the two infinities, or a finite value carried as the
  rational it denotes. Every arithmetic result is rounded to the nearest binary64 value,
  ties to even, by \<open>to_number\<close>. The two zeros of IEEE 754 are identified: nothing the screen
  does tells them apart (they compare equal, \<^verbatim>\<open>toFixed\<close> prints both alike, and the screen
  divides by 100, by a squared height, by 30 and by 10 only).
\<close>

datatype number = NaN | PosInf | NegInf | Fin rat

definition round_half_even :: "rat \<Rightarrow> int" where
  "round_half_even x =
     (let f = \<lfloor>x\<rfloor>; d = x - of_int f
      in if d < 1 / 2 then f else if 1 / 2 < d then f + 1 else if even f then f else f + 1)"

text \<open>\<open>ilog2 x\<close> is the binary exponent of a positive rational: \<open>2 powi ilog2 x \<le> x < 2 powi (ilog2 x + 1)\<close>.\<close>

definition ilog2 :: "rat \<Rightarrow> int" where
  "ilog2 x = (case quotient_of x of (n, d) \<Rightarrow>
     (let k = bitlen n - bitlen d in if 2 powi k \<le> x then k else k - 1))"

text \<open>
  The spacing of binary64 values around a positive magnitude: 53 significant bits, and the
  exponent of the subnormal range (below \<open>2 powi - 1022\<close>) held at its minimum.
\<close>

definition ulp :: "rat \<Rightarrow> rat" where
  "ulp x = 2 powi (max (ilog2 x) (- 1022) - 52)"

definition round64 :: "rat \<Rightarrow> rat" where
  "round64 x = (if x = 0 then 0
     else sgn x * (of_int (round_half_even (\<bar>x\<bar> / ulp \<bar>x\<bar>)) * ulp \<bar>x\<bar>))"

text \<open>A rounded magnitude of \<open>2 ^ 1024\<close> or more has left the binary64 range: it is an infinity.\<close>

definition to_number :: "rat \<Rightarrow> number" where
  "to_number x = (let r = round64 x in
     if 2 ^ 1024 \<le> r then PosInf else if r \<le> - (2 ^ 1024) then NegInf else Fin r)"

fun is_neg :: "number \<Rightarrow> bool" where
  "is_neg (Fin a) = (a < 0)"
| "is_neg NegInf = True"
| "is_neg _ = False"

fun js_neg :: "number \<Rightarrow> number" where
  "js_neg (Fin a) = Fin (- a)"
| "js_neg PosInf = NegInf"
| "js_neg NegInf = PosInf"
| "js_neg NaN = NaN"

text \<open>The operators \<^verbatim>\<open>*\<close>, \<^verbatim>\<open>/\<close> and \<^verbatim>\<open>-\<close> on numbers.\<close>

fun js_mul :: "number \<Rightarrow> number \<Rightarrow> number" where
  "js_mul (Fin a) (Fin b) = to_number (a * b)"
| "js_mul NaN _ = NaN"
| "js_mul _ NaN = NaN"
| "js_mul x y =
     (if x = Fin 0 \<or> y = Fin 0 then NaN else if is_neg x = is_neg y then PosInf else NegInf)"

fun js_div :: "number \<Rightarrow> number \<Rightarrow> number" where
  "js_div (Fin a) (Fin b) =
     (if b = 0 then (if a = 0 then NaN else if 0 < a then PosInf else NegInf)
      else to_number (a / b))"
| "js_div NaN _ = NaN"
| "js_div _ NaN = NaN"
| "js_div (Fin a) _ = Fin 0"
| "js_div x (Fin b) = (if is_neg x = (b < 0) then PosInf else NegInf)"
| "js_div _ _ = NaN"

fun js_sub :: "number \<Rightarrow> number \<Rightarrow> number" where
  "js_sub (Fin a) (Fin b) = to_number (a - b)"
| "js_sub NaN _ = NaN"
| "js_sub _ NaN = NaN"
| "js_sub PosInf PosInf = NaN"
| "js_sub NegInf NegInf = NaN"
| "js_sub PosInf _ = PosInf"
| "js_sub NegInf _ = NegInf"
| "js_sub (Fin a) PosInf = NegInf"
| "js_sub (Fin a) NegInf = PosInf"

text \<open>The comparisons \<^verbatim>\<open><\<close>, \<^verbatim>\<open>>\<close>, \<^verbatim>\<open><=\<close>, \<^verbatim>\<open>>=\<close>: false whenever an operand is not-a-number.\<close>

fun js_lt :: "number \<Rightarrow> number \<Rightarrow> bool" where
  "js_lt (Fin a) (Fin b) = (a < b)"
| "js_lt NaN _ = False"
| "js_lt _ NaN = False"
| "js_lt PosInf _ = False"
| "js_lt _ PosInf = True"
| "js_lt NegInf NegInf = False"
| "js_lt NegInf _ = True"
| "js_lt (Fin a) NegInf = False"

definition js_gt :: "number \<Rightarrow> number \<Rightarrow> bool" where
  "js_gt a b = js_lt b a"

definition js_le :: "number \<Rightarrow> number \<Rightarrow> bool" where
  "js_le a b = (a \<noteq> NaN \<and> b \<noteq> NaN \<and> \<not> js_lt b a)"

definition js_ge :: "number \<Rightarrow> number \<Rightarrow> bool" where
  "js_ge a b = js_le b a"

text \<open>\<^verbatim>\<open>Math.max\<close>, \<^verbatim>\<open>Math.min\<close> (two arguments), \<^verbatim>\<open>Math.round\<close> and \<^verbatim>\<open>Number.isFinite\<close>.\<close>

definition Math_max :: "number \<Rightarrow> number \<Rightarrow> number" where
  "Math_max a b = (if a = NaN \<or> b = NaN then NaN else if js_lt a b then b else a)"

definition Math_min :: "number \<Rightarrow> number \<Rightarrow> number" where
  "Math_min a b = (if a = NaN \<or> b = NaN then NaN else if js_lt b a then b else a)"

fun Math_round :: "number \<Rightarrow> number" where
  "Math_round (Fin a) = Fin (of_int \<lfloor>a + 1 / 2\<rfloor>)"
| "Math_round x = x"

fun Number_isFinite :: "number \<Rightarrow> bool" where
  "Number_isFinite (Fin a) = True"
| "Number_isFinite _ = False"

section \<open>JavaScript strings\<close>

text \<open>
  A string is its sequence of UTF-16 code units. \<open>str\<close> reads an ASCII literal.
\<close>

type_synonym jsstring = "16 word list"

definition str :: "string \<Rightarrow> jsstring" where
  "str s = map (\<lambda>c. of_nat (of_char c)) s"

text \<open>
  \<^verbatim>\<open>String.prototype.replace\<close> with a string pattern of one code unit: only the first
  occurrence is replaced. (The replacement used by the screen holds no \<^verbatim>\<open>$\<close> pattern.)
\<close>

fun replace :: "16 word \<Rightarrow> jsstring \<Rightarrow> jsstring \<Rightarrow> jsstring" where
  "replace a r [] = []"
| "replace a r (c # cs) = (if c = a then r @ cs else c # replace a r cs)"

text \<open>The white space and line terminator code points of ECMAScript, all in the basic plane.\<close>

definition WhiteSpace :: "16 word list" where
  "WhiteSpace = [0x0009, 0x000B, 0x000C, 0xFEFF, 0x0020, 0x00A0, 0x1680,
     0x2000, 0x2001, 0x2002, 0x2003, 0x2004, 0x2005, 0x2006, 0x2007, 0x2008, 0x2009, 0x200A,
     0x202F, 0x205F, 0x3000]"

definition LineTerminator :: "16 word list" where
  "LineTerminator = [0x000A, 0x000D, 0x2028, 0x2029]"

definition StrWhiteSpaceChar :: "16 word \<Rightarrow> bool" where
  "StrWhiteSpaceChar c = (c \<in> set (WhiteSpace @ LineTerminator))"

definition trim :: "jsstring \<Rightarrow> jsstring" where
  "trim s = rev (dropWhile StrWhiteSpaceChar (rev (dropWhile StrWhiteSpaceChar s)))"

subsection \<open>String to number\<close>

text \<open>
  \<^verbatim>\<open>Number(text)\<close> follows the StringNumericLiteral grammar of ECMAScript: optional white
  space around a signed decimal literal (digits, an optional fraction, an optional exponent,
  or \<^verbatim>\<open>Infinity\<close>) or an unsigned binary, octal or hexadecimal integer. Blank text is 0,
  text outside the grammar is not-a-number, and the mathematical value of a literal is
  rounded to binary64. (ECMAScript lets an engine approximate a literal of more than 20
  significant digits; the model rounds the exact value, as the engines do.)
\<close>

definition is_digit :: "16 word \<Rightarrow> bool" where
  "is_digit c = (0x30 \<le> c \<and> c \<le> 0x39)"

definition digit_value :: "16 word \<Rightarrow> nat" where
  "digit_value c =
     (if 0x30 \<le> c \<and> c \<le> 0x39 then unat c - 0x30
      else if 0x61 \<le> c \<and> c \<le> 0x66 then unat c - 0x61 + 10
      else unat c - 0x41 + 10)"

definition is_radix_digit :: "nat \<Rightarrow> 16 word \<Rightarrow> bool" where
  "is_radix_digit r c =
     ((is_digit c \<or> (0x61 \<le> c \<and> c \<le> 0x66) \<or> (0x41 \<le> c \<and> c \<le> 0x46)) \<and> digit_value c < r)"

definition digits_value :: "nat \<Rightarrow> jsstring \<Rightarrow> nat" where
  "digits_value r ds = foldl (\<lambda>a c. r * a + digit_value c) 0 ds"

definition radix_of :: "16 word \<Rightarrow> nat option" where
  "radix_of x =
     (if x = 0x62 \<or> x = 0x42 then Some 2
      else if x = 0x6F \<or> x = 0x4F then Some 8
      else if x = 0x78 \<or> x = 0x58 then Some 16
      else None)"

definition NonDecimalIntegerLiteral :: "jsstring \<Rightarrow> rat option" where
  "NonDecimalIntegerLiteral t =
     (case t of
        z # x # ds \<Rightarrow>
          (case radix_of x of
             Some r \<Rightarrow>
               if z = 0x30 \<and> ds \<noteq> [] \<and> list_all (is_radix_digit r) ds
               then Some (of_nat (digits_value r ds)) else None
           | None \<Rightarrow> None)
      | _ \<Rightarrow> None)"

definition DecimalDigits :: "jsstring \<Rightarrow> int option" where
  "DecimalDigits ds =
     (if ds \<noteq> [] \<and> list_all is_digit ds then Some (int (digits_value 10 ds)) else None)"

definition SignedInteger :: "jsstring \<Rightarrow> int option" where
  "SignedInteger ds =
     (case ds of
        [] \<Rightarrow> None
      | c # r \<Rightarrow>
          if c = 0x2B then DecimalDigits r
          else if c = 0x2D then map_option uminus (DecimalDigits r)
          else DecimalDigits ds)"

text \<open>The exponent part, when there is one: the power of ten it denotes. No text left: 0.\<close>

definition ExponentPart :: "jsstring \<Rightarrow> int option" where
  "ExponentPart t =
     (case t of
        [] \<Rightarrow> Some 0
      | c # r \<Rightarrow> if c = 0x65 \<or> c = 0x45 then SignedInteger r else None)"

definition StrUnsignedDecimalLiteral :: "jsstring \<Rightarrow> rat option" where
  "StrUnsignedDecimalLiteral u =
     (let ip = takeWhile is_digit u;
          r1 = dropWhile is_digit u;
          dot = (r1 \<noteq> [] \<and> hd r1 = 0x2E);
          fp = (if dot then takeWhile is_digit (tl r1) else []);
          r2 = (if dot then dropWhile is_digit (tl r1) else r1)
      in if ip = [] \<and> fp = [] then None
         else (case ExponentPart r2 of
                 None \<Rightarrow> None
               | Some e \<Rightarrow>
                   Some (of_nat (digits_value 10 (ip @ fp)) * 10 powi (e - int (length fp)))))"

definition StrUnsigned :: "jsstring \<Rightarrow> number option" where
  "StrUnsigned u =
     (if u = str ''Infinity'' then Some PosInf
      else map_option to_number (StrUnsignedDecimalLiteral u))"

definition StrDecimalLiteral :: "jsstring \<Rightarrow> number option" where
  "StrDecimalLiteral t =
     (case t of
        [] \<Rightarrow> None
      | c # r \<Rightarrow>
          if c = 0x2B then StrUnsigned r
          else if c = 0x2D then map_option js_neg (StrUnsigned r)
          else StrUnsigned t)"

definition StrNumericLiteral :: "jsstring \<Rightarrow> number option" where
  "StrNumericLiteral t =
     (case NonDecimalIntegerLiteral t of
        Some v \<Rightarrow> Some (to_number v)
      | None \<Rightarrow> StrDecimalLiteral t)"

definition Number :: "jsstring \<Rightarrow> number" where
  "Number s =
     (let t = trim s
      in if t = [] then Fin 0
         else (case StrNumericLiteral t of None \<Rightarrow> NaN | Some v \<Rightarrow> v))"

subsection \<open>Number to string\<close>

text \<open>The decimal digits of a natural number.\<close>

fun dec :: "nat \<Rightarrow> jsstring" where
  "dec n = (if n < 10 then [of_nat (0x30 + n)] else dec (n div 10) @ [of_nat (0x30 + n mod 10)])"

declare dec.simps [simp del]

text \<open>
  \<^verbatim>\<open>Number.prototype.toFixed\<close>: the nearest multiple of \<open>10 powi - f\<close>, the larger one on a
  tie, written with \<open>f\<close> digits after the point. A number of magnitude \<open>10 ^ 21\<close> or more is
  written by the general number-to-string conversion instead, which is the parameter \<open>big\<close>.
\<close>

definition toFixed :: "(rat \<Rightarrow> jsstring) \<Rightarrow> nat \<Rightarrow> number \<Rightarrow> jsstring" where
  "toFixed big f x =
     (case x of
        NaN \<Rightarrow> str ''NaN''
      | PosInf \<Rightarrow> str ''Infinity''
      | NegInf \<Rightarrow> str ''-Infinity''
      | Fin q \<Rightarrow>
          if 10 ^ 21 \<le> \<bar>q\<bar> then big q
          else
            (let n = nat \<lfloor>\<bar>q\<bar> * 10 ^ f + 1 / 2\<rfloor>;
                 m = dec n;
                 z = (if length m \<le> f then replicate (f + 1 - length m) 0x30 @ m else m);
                 k = length z - f;
                 m' = (if f \<noteq> 0 then take k z @ 0x2E # drop k z else m)
             in if q < 0 then 0x2D # m' else m'))"

section \<open>The functions of the two screens\<close>

text \<open>
  The source file holds two screens, one after the other, with the same names: the first
  (lines 1 to 364) has a dark theme and animates with Reanimated, the second (lines 365 to
  738) has a light theme and animates with Animated. The names of the first carry the suffix
  \<open>_v1\<close>, those of the second \<open>_v2\<close>. First \<^verbatim>\<open>parseNumber\<close>, \<^verbatim>\<open>getBmiCategory\<close> and
  \<^verbatim>\<open>round1\<close> of the first screen (lines 28 to 81).
\<close>

datatype label = Underweight | Normal | Overweight | Obese

record BmiCategory =
  label :: label
  rangeLabel :: jsstring
  hint :: jsstring
  colorClass :: jsstring

definition parseNumber_v1 :: "jsstring \<Rightarrow> number option" where
  "parseNumber_v1 input =
     (let normalized = trim (replace 0x2C (str ''.'') input)
      in if normalized = [] then None
         else (let v = Number normalized
               in if \<not> Number_isFinite v then None else Some v))"

definition getBmiCategory_v1 :: "number \<Rightarrow> BmiCategory" where
  "getBmiCategory_v1 bmi =
     (if js_lt bmi (Fin (185 / 10)) then
        \<lparr>label = Underweight,
         rangeLabel = str ''< 18.5'',
         hint = str ''Try a nutrient-dense diet and strength training. If unsure, check with a clinician.'',
         colorClass = str ''text-sky-300''\<rparr>
      else if js_lt bmi (Fin 25) then
        \<lparr>label = Normal,
         rangeLabel = str ''18.5 '' @ [0x2013] @ str '' 24.9'',
         hint = str ''Nice! Keep a balanced diet and regular activity to maintain.'',
         colorClass = str ''text-emerald-300''\<rparr>
      else if js_lt bmi (Fin 30) then
        \<lparr>label = Overweight,
         rangeLabel = str ''25.0 '' @ [0x2013] @ str '' 29.9'',
         hint = str ''Consider small, sustainable changes: daily steps, protein-forward meals, and sleep.'',
         colorClass = str ''text-amber-300''\<rparr>
      else
        \<lparr>label = Obese,
         rangeLabel = [0x2265] @ str '' 30.0'',
         hint = str ''A structured plan helps: nutrition, movement, and medical guidance if needed.'',
         colorClass = str ''text-rose-300''\<rparr>)"

definition round1_v1 :: "(rat \<Rightarrow> jsstring) \<Rightarrow> number \<Rightarrow> jsstring" where
  "round1_v1 big n = toFixed big 1 (js_div (Math_round (js_mul n (Fin 10))) (Fin 10))"

text \<open>The same three functions of the second screen (lines 379 to 437).\<close>

record BmiCategory2 = BmiCategory +
  accentHex :: jsstring

definition parseNumber_v2 :: "jsstring \<Rightarrow> number option" where
  "parseNumber_v2 input =
     (let normalized = trim (replace 0x2C (str ''.'') input)
      in if normalized = [] then None
         else (let v = Number normalized
               in if \<not> Number_isFinite v then None else Some v))"

definition getBmiCategory_v2 :: "number \<Rightarrow> BmiCategory2" where
  "getBmiCategory_v2 bmi =
     (if js_lt bmi (Fin (185 / 10)) then
        \<lparr>label = Underweight,
         rangeLabel = str ''< 18.5'',
         hint = str ''Try a nutrient-dense diet and strength training. If unsure, check with a clinician.'',
         colorClass = str ''text-orange-700'',
         accentHex = str ''#c2410c''\<rparr>
      else if js_lt bmi (Fin 25) then
        \<lparr>label = Normal,
         rangeLabel = str ''18.5 '' @ [0x2013] @ str '' 24.9'',
         hint = str ''Nice! Keep a balanced diet and regular activity to maintain.'',
         colorClass = str ''text-emerald-700'',
         accentHex = str ''#047857''\<rparr>
      else if js_lt bmi (Fin 30) then
        \<lparr>label = Overweight,
         rangeLabel = str ''25.0 '' @ [0x2013] @ str '' 29.9'',
         hint = str ''Consider small, sustainable changes: daily steps, protein-forward meals, and sleep.'',
         colorClass = str ''text-amber-700'',
         accentHex = str ''#b45309''\<rparr>
      else
        \<lparr>label = Obese,
         rangeLabel = [0x2265] @ str '' 30.0'',
         hint = str ''A structured plan helps: nutrition, movement, and medical guidance if needed.'',
         colorClass = str ''text-rose-700'',
         accentHex = str ''#be123c''\<rparr>)"

definition round1_v2 :: "(rat \<Rightarrow> jsstring) \<Rightarrow> number \<Rightarrow> jsstring" where
  "round1_v2 big n = toFixed big 1 (js_div (Math_round (js_mul n (Fin 10))) (Fin 10))"

section \<open>The first screen: state and handlers\<close>

text \<open>
  The component state (\<^verbatim>\<open>useState\<close>): the two input texts, the result and the width of the
  scale. Both screens hold the same four cells.
\<close>

record page =
  heightCm :: jsstring
  weightKg :: jsstring
  bmi :: "number option"
  barWidth :: number

definition Page_init :: page where
  "Page_init = \<lparr>heightCm = [], weightKg = [], bmi = None, barWidth = Fin 0\<rparr>"

text \<open>
  The animated values of the two screens. The animation engine is outside the program: a
  handler's effect on it is the list of commands it issues, in the order of the source.
\<close>

datatype handle = reveal | pulse | shakeX | progress | indicatorPop

datatype easing = inOut_quad | out_cubic

text \<open>
  Reanimated: \<^verbatim>\<open>withTiming(toValue, {duration, easing})\<close>,
  \<^verbatim>\<open>withSpring(toValue, {damping, stiffness})\<close>, \<^verbatim>\<open>withSequence\<close>,
  \<^verbatim>\<open>withRepeat(animation, count, reverse)\<close>; \<open>Assign v a\<close> is \<^verbatim>\<open>v.value = a\<close>.
\<close>

datatype animation =
    withTiming number nat "easing option"
  | withSpring number nat nat
  | withSequence "animation list"
  | withRepeat animation int bool

datatype effect_v1 = Assign handle animation

definition mount_v1 :: "effect_v1 list" where
  "mount_v1 = [Assign pulse (withRepeat (withTiming (Fin 1) 2400 (Some inOut_quad)) (- 1) True)]"

definition heightValue_v1 :: "page \<Rightarrow> number option" where
  "heightValue_v1 p = parseNumber_v1 (heightCm p)"

definition weightValue_v1 :: "page \<Rightarrow> number option" where
  "weightValue_v1 p = parseNumber_v1 (weightKg p)"

definition category_v1 :: "page \<Rightarrow> BmiCategory option" where
  "category_v1 p = (case bmi p of None \<Rightarrow> None | Some b \<Rightarrow> Some (getBmiCategory_v1 b))"

definition bmiColor_v1 :: "page \<Rightarrow> nat" where
  "bmiColor_v1 p =
     (let v = (case bmi p of None \<Rightarrow> Fin 0 | Some b \<Rightarrow> b)
      in if v = Fin 0 then 0
         else if js_lt v (Fin (185 / 10)) then 0
         else if js_lt v (Fin 25) then 1
         else if js_lt v (Fin 30) then 2
         else 3)"

definition triggerInvalidShake_v1 :: "effect_v1 list" where
  "triggerInvalidShake_v1 =
     [Assign shakeX (withSequence
        [withTiming (Fin (- 10)) 60 None,
         withTiming (Fin 10) 60 None,
         withTiming (Fin (- 8)) 60 None,
         withTiming (Fin 8) 60 None,
         withTiming (Fin 0) 60 None])]"

text \<open>The local constants \<^verbatim>\<open>valid\<close>, \<^verbatim>\<open>nextBmi\<close> and \<^verbatim>\<open>normalized\<close> of \<^verbatim>\<open>onCalculate\<close>.\<close>

definition valid_v1 :: "page \<Rightarrow> bool" where
  "valid_v1 p =
     (case (heightValue_v1 p, weightValue_v1 p) of
        (Some h, Some w) \<Rightarrow>
          js_gt h (Fin 40) \<and> js_lt h (Fin 260) \<and> js_gt w (Fin 10) \<and> js_lt w (Fin 400)
      | _ \<Rightarrow> False)"

definition nextBmi_v1 :: "number \<Rightarrow> number \<Rightarrow> number" where
  "nextBmi_v1 h w = (let heightM = js_div h (Fin 100) in js_div w (js_mul heightM heightM))"

definition normalized_v1 :: "number \<Rightarrow> number" where
  "normalized_v1 nextBmi =
     Math_max (Fin 0) (Math_min (Fin 1) (js_div (js_sub nextBmi (Fin 10)) (Fin 30)))"

text \<open>
  \<^verbatim>\<open>onCalculate\<close> (lines 170 to 198). Past the test of \<^verbatim>\<open>valid\<close> both parsed values are
  present, so \<open>the\<close> is only applied to a present value.
\<close>

definition onCalculate_v1 :: "page \<Rightarrow> page \<times> effect_v1 list" where
  "onCalculate_v1 p =
     (if \<not> valid_v1 p then
        (p\<lparr>bmi := None\<rparr>,
         triggerInvalidShake_v1 @
         [Assign reveal (withTiming (Fin 0) 180 None),
          Assign progress (withTiming (Fin 0) 180 None)])
      else
        (let nextBmi = nextBmi_v1 (the (heightValue_v1 p)) (the (weightValue_v1 p))
         in (p\<lparr>bmi := Some nextBmi\<rparr>,
             [Assign reveal (withSpring (Fin 1) 14 140),
              Assign progress (withTiming (normalized_v1 nextBmi) 500 (Some out_cubic))])))"

definition onReset_v1 :: "page \<Rightarrow> page \<times> effect_v1 list" where
  "onReset_v1 p =
     (p\<lparr>heightCm := [], weightKg := [], bmi := None\<rparr>,
      [Assign reveal (withTiming (Fin 0) 200 None),
       Assign progress (withTiming (Fin 0) 200 None)])"

text \<open>
  The events of the screen: a change of either text, a layout of the scale, a press on
  Calculate (or submitting the weight field) and a press on Reset.
\<close>

datatype event = setHeightCm jsstring | setWeightKg jsstring | setBarWidth number | Calculate | Reset

fun step_v1 :: "event \<Rightarrow> page \<Rightarrow> page \<times> effect_v1 list" where
  "step_v1 (setHeightCm s) p = (p\<lparr>heightCm := s\<rparr>, [])"
| "step_v1 (setWeightKg s) p = (p\<lparr>weightKg := s\<rparr>, [])"
| "step_v1 (setBarWidth w) p = (p\<lparr>barWidth := w\<rparr>, [])"
| "step_v1 Calculate p = onCalculate_v1 p"
| "step_v1 Reset p = onReset_v1 p"

section \<open>The second screen: state and handlers\<close>

text \<open>
  Animated: \<^verbatim>\<open>Animated.timing(v, {toValue, duration, useNativeDriver})\<close>,
  \<^verbatim>\<open>Animated.spring(v, {toValue, speed, bounciness, useNativeDriver})\<close>,
  \<^verbatim>\<open>Animated.sequence\<close>, \<^verbatim>\<open>Animated.parallel\<close>; the commands are \<^verbatim>\<open>v.setValue(x)\<close>,
  \<^verbatim>\<open>v.stopAnimation()\<close> and \<^verbatim>\<open>a.start()\<close>.
\<close>

datatype composite =
    timing handle number nat bool
  | spring handle number nat nat bool
  | sequence "composite list"
  | parallel "composite list"

datatype effect_v2 = setValue handle number | stopAnimation handle | start composite

definition heightValue_v2 :: "page \<Rightarrow> number option" where
  "heightValue_v2 p = parseNumber_v2 (heightCm p)"

definition weightValue_v2 :: "page \<Rightarrow> number option" where
  "weightValue_v2 p = parseNumber_v2 (weightKg p)"

definition category_v2 :: "page \<Rightarrow> BmiCategory2 option" where
  "category_v2 p = (case bmi p of None \<Rightarrow> None | Some b \<Rightarrow> Some (getBmiCategory_v2 b))"

definition accentHex_v2 :: "page \<Rightarrow> jsstring" where
  "accentHex_v2 p = (case category_v2 p of None \<Rightarrow> str ''#0f172a'' | Some c \<Rightarrow> accentHex c)"

definition triggerIndicatorPop_v2 :: "effect_v2 list" where
  "triggerIndicatorPop_v2 =
     [stopAnimation indicatorPop,
      setValue indicatorPop (Fin 0),
      start (sequence
        [spring indicatorPop (Fin 1) 18 10 True,
         timing indicatorPop (Fin 0) 220 True])]"

definition triggerInvalidShake_v2 :: "effect_v2 list" where
  "triggerInvalidShake_v2 =
     [setValue shakeX (Fin 0),
      start (sequence
        [timing shakeX (Fin (- 10)) 60 True,
         timing shakeX (Fin 10) 60 True,
         timing shakeX (Fin (- 8)) 60 True,
         timing shakeX (Fin 8) 60 True,
         timing shakeX (Fin 0) 60 True])]"

definition valid_v2 :: "page \<Rightarrow> bool" where
  "valid_v2 p =
     (case (heightValue_v2 p, weightValue_v2 p) of
        (Some h, Some w) \<Rightarrow>
          js_gt h (Fin 40) \<and> js_lt h (Fin 260) \<and> js_gt w (Fin 10) \<and> js_lt w (Fin 400)
      | _ \<Rightarrow> False)"

definition nextBmi_v2 :: "number \<Rightarrow> number \<Rightarrow> number" where
  "nextBmi_v2 h w = (let heightM = js_div h (Fin 100) in js_div w (js_mul heightM heightM))"

definition normalized_v2 :: "number \<Rightarrow> number" where
  "normalized_v2 nextBmi =
     Math_max (Fin 0) (Math_min (Fin 1) (js_div (js_sub nextBmi (Fin 10)) (Fin 30)))"

text \<open>\<^verbatim>\<open>onCalculate\<close> (lines 542 to 579) and \<^verbatim>\<open>onReset\<close> (lines 581 to 590).\<close>

definition onCalculate_v2 :: "page \<Rightarrow> page \<times> effect_v2 list" where
  "onCalculate_v2 p =
     (if \<not> valid_v2 p then
        (p\<lparr>bmi := None\<rparr>,
         triggerInvalidShake_v2 @
         [setValue indicatorPop (Fin 0),
          start (parallel
            [timing reveal (Fin 0) 160 True,
             timing progress (Fin 0) 180 False])])
      else
        (let nextBmi = nextBmi_v2 (the (heightValue_v2 p)) (the (weightValue_v2 p))
         in (p\<lparr>bmi := Some nextBmi\<rparr>,
             [start (timing reveal (Fin 1) 220 True),
              start (timing progress (normalized_v2 nextBmi) 480 False)] @
             triggerIndicatorPop_v2)))"

definition onReset_v2 :: "page \<Rightarrow> page \<times> effect_v2 list" where
  "onReset_v2 p =
     (p\<lparr>heightCm := [], weightKg := [], bmi := None\<rparr>,
      [setValue indicatorPop (Fin 0),
       start (parallel
         [timing reveal (Fin 0) 160 True,
          timing progress (Fin 0) 180 False])])"

fun step_v2 :: "event \<Rightarrow> page \<Rightarrow> page \<times> effect_v2 list" where
  "step_v2 (setHeightCm s) p = (p\<lparr>heightCm := s\<rparr>, [])"
| "step_v2 (setWeightKg s) p = (p\<lparr>weightKg := s\<rparr>, [])"
| "step_v2 (setBarWidth w) p = (p\<lparr>barWidth := w\<rparr>, [])"
| "step_v2 Calculate p = onCalculate_v2 p"
| "step_v2 Reset p = onReset_v2 p"

section \<open>The vocabulary of the specification\<close>

text \<open>
  The specification names the computing part of \<^verbatim>\<open>onCalculate\<close> \<open>evaluate\<close>, with the outcomes
  Rejected and Accepted. In the source the outcome is what the handler leaves in the
  \<^verbatim>\<open>bmi\<close> cell: \<^verbatim>\<open>null\<close> when the input is refused, the computed number otherwise.
\<close>

datatype outcome = Rejected | Accepted number

definition evaluate_v1 :: "page \<Rightarrow> outcome" where
  "evaluate_v1 p = (case bmi (fst (onCalculate_v1 p)) of None \<Rightarrow> Rejected | Some b \<Rightarrow> Accepted b)"

definition evaluate_v2 :: "page \<Rightarrow> outcome" where
  "evaluate_v2 p = (case bmi (fst (onCalculate_v2 p)) of None \<Rightarrow> Rejected | Some b \<Rightarrow> Accepted b)"

text \<open>The squaring and the clamp of the specification's formulas.\<close>

definition square :: "number \<Rightarrow> number" where
  "square x = js_mul x x"

definition clamp :: "number \<Rightarrow> number \<Rightarrow> number \<Rightarrow> number" where
  "clamp x lo hi = (if js_lt x lo then lo else if js_gt x hi then hi else x)"

text \<open>
  The display state machine of the specification: its three states and its two commands,
  which do not look at the state they leave.
\<close>

datatype display = Idle | Invalid | Result number

fun spec_onCalculate :: "outcome \<Rightarrow> display \<Rightarrow> display" where
  "spec_onCalculate Rejected d = Invalid"
| "spec_onCalculate (Accepted r) d = Result r"

definition spec_onReset :: "display \<Rightarrow> display" where
  "spec_onReset d = Idle"

text \<open>
  What the screen holds in each display state: no result in Idle and in Invalid, the result
  in Result. Idle and Invalid differ by the command that led there, not by a stored cell.
\<close>

fun displays :: "display \<Rightarrow> page \<Rightarrow> bool" where
  "displays Idle p = (bmi p = None)"
| "displays Invalid p = (bmi p = None)"
| "displays (Result r) p = (bmi p = Some r)"

text \<open>The machine of the specification run beside each screen, event by event.\<close>

fun spec_step_v1 :: "event \<Rightarrow> page \<Rightarrow> display \<Rightarrow> display" where
  "spec_step_v1 Calculate p d = spec_onCalculate (evaluate_v1 p) d"
| "spec_step_v1 Reset p d = spec_onReset d"
| "spec_step_v1 e p d = d"

fun spec_step_v2 :: "event \<Rightarrow> page \<Rightarrow> display \<Rightarrow> display" where
  "spec_step_v2 Calculate p d = spec_onCalculate (evaluate_v2 p) d"
| "spec_step_v2 Reset p d = spec_onReset d"
| "spec_step_v2 e p d = d"

fun run_v1 :: "event list \<Rightarrow> page \<times> display \<Rightarrow> page \<times> display" where
  "run_v1 [] s = s"
| "run_v1 (e # es) s = run_v1 es (fst (step_v1 e (fst s)), spec_step_v1 e (fst s) (snd s))"

fun run_v2 :: "event list \<Rightarrow> page \<times> display \<Rightarrow> page \<times> display" where
  "run_v2 [] s = s"
| "run_v2 (e # es) s = run_v2 es (fst (step_v2 e (fst s)), spec_step_v2 e (fst s) (snd s))"

text \<open>
  What a list of commands asks of one animated value: the values it is animated to, in
  order, and the legs of its timed steps (displacement and duration in milliseconds).
\<close>

fun animation_targets :: "animation \<Rightarrow> number list" where
  "animation_targets (withTiming v d e) = [v]"
| "animation_targets (withSpring v d s) = [v]"
| "animation_targets (withSequence as) = concat (map animation_targets as)"
| "animation_targets (withRepeat a c r) = animation_targets a"

definition targets_v1 :: "handle \<Rightarrow> effect_v1 list \<Rightarrow> number list" where
  "targets_v1 h fx =
     concat (map (\<lambda>e. case e of Assign h' a \<Rightarrow> if h' = h then animation_targets a else []) fx)"

fun composite_targets :: "handle \<Rightarrow> composite \<Rightarrow> number list" where
  "composite_targets h (timing h' v d n) = (if h' = h then [v] else [])"
| "composite_targets h (spring h' v s b n) = (if h' = h then [v] else [])"
| "composite_targets h (sequence cs) = concat (map (composite_targets h) cs)"
| "composite_targets h (parallel cs) = concat (map (composite_targets h) cs)"

definition targets_v2 :: "handle \<Rightarrow> effect_v2 list \<Rightarrow> number list" where
  "targets_v2 h fx =
     concat (map (\<lambda>e. case e of start c \<Rightarrow> composite_targets h c
                              | setValue h' v \<Rightarrow> []
                              | stopAnimation h' \<Rightarrow> []) fx)"

fun legs_v1 :: "animation \<Rightarrow> (rat \<times> nat) list" where
  "legs_v1 (withSequence as) = concat (map legs_v1 as)"
| "legs_v1 (withTiming (Fin x) d e) = [(x, d)]"
| "legs_v1 a = []"

definition shake_v1 :: "effect_v1 list \<Rightarrow> (rat \<times> nat) list" where
  "shake_v1 fx =
     concat (map (\<lambda>e. case e of Assign h a \<Rightarrow> if h = shakeX then legs_v1 a else []) fx)"

fun legs_v2 :: "handle \<Rightarrow> composite \<Rightarrow> (rat \<times> nat) list" where
  "legs_v2 h (sequence cs) = concat (map (legs_v2 h) cs)"
| "legs_v2 h (timing h' (Fin x) d n) = (if h' = h then [(x, d)] else [])"
| "legs_v2 h c = []"

definition shake_v2 :: "effect_v2 list \<Rightarrow> (rat \<times> nat) list" where
  "shake_v2 fx =
     concat (map (\<lambda>e. case e of start c \<Rightarrow> legs_v2 shakeX c
                              | setValue h' v \<Rightarrow> []
                              | stopAnimation h' \<Rightarrow> []) fx)"

text \<open>The animations a list of commands starts, and the animated values each one drives.\<close>

definition assigned_v1 :: "effect_v1 list \<Rightarrow> handle list" where
  "assigned_v1 fx = map (\<lambda>e. case e of Assign h a \<Rightarrow> h) fx"

definition started_v2 :: "effect_v2 list \<Rightarrow> composite list" where
  "started_v2 fx =
     concat (map (\<lambda>e. case e of start c \<Rightarrow> [c]
                              | setValue h' v \<Rightarrow> []
                              | stopAnimation h' \<Rightarrow> []) fx)"

fun handles :: "composite \<Rightarrow> handle list" where
  "handles (timing h v d n) = [h]"
| "handles (spring h v s b n) = [h]"
| "handles (sequence cs) = concat (map handles cs)"
| "handles (parallel cs) = concat (map handles cs)"

section \<open>Rounding to binary64\<close>

lemma rhe_of_int: "round_half_even (of_int n) = n"
  by (simp add: round_half_even_def)

lemma rhe_bounds: "\<lfloor>x\<rfloor> \<le> round_half_even x" "round_half_even x \<le> \<lfloor>x\<rfloor> + 1"
  by (simp_all add: round_half_even_def Let_def)

lemma rhe_mono: assumes "x \<le> y" shows "round_half_even x \<le> round_half_even y"
proof (cases "\<lfloor>x\<rfloor> = \<lfloor>y\<rfloor>")
  case True
  then show ?thesis using assms by (auto simp add: round_half_even_def Let_def)
next
  case False
  with assms have "\<lfloor>x\<rfloor> + 1 \<le> \<lfloor>y\<rfloor>" using floor_mono[OF assms] by linarith
  then show ?thesis using rhe_bounds[of x] rhe_bounds[of y] by linarith
qed


lemma bitlen_powi_bounds:
  assumes "0 < n"
  shows "(2::rat) powi (bitlen n - 1) \<le> of_int n" "of_int n < (2::rat) powi (bitlen n)"
proof -
  from assms have b1: "1 \<le> bitlen n" by (auto simp: bitlen_alt_def)
  have lo: "2 ^ nat (bitlen n - 1) \<le> n" and hi: "n < 2 ^ nat (bitlen n)"
    using bitlen_bounds[OF assms] by auto
  have "(2::rat) powi (bitlen n - 1) = 2 ^ nat (bitlen n - 1)"
    using b1 by (simp add: power_int_def)
  also have "\<dots> = of_int (2 ^ nat (bitlen n - 1))" by simp
  also have "\<dots> \<le> of_int n" using lo by (simp only: of_int_le_iff)
  finally show "(2::rat) powi (bitlen n - 1) \<le> of_int n" .
  have "(of_int n :: rat) < of_int (2 ^ nat (bitlen n))" using hi by (simp only: of_int_less_iff)
  also have "\<dots> = 2 ^ nat (bitlen n)" by simp
  also have "\<dots> = (2::rat) powi (bitlen n)" using b1 by (simp add: power_int_def)
  finally show "of_int n < (2::rat) powi (bitlen n)" .
qed

lemma ilog2_bounds:
  assumes "0 < x"
  shows "2 powi (ilog2 x) \<le> x" "x < 2 powi (ilog2 x + 1)"
proof -
  obtain n d where q: "quotient_of x = (n, d)" by (cases "quotient_of x")
  have d: "0 < d" using q by (rule quotient_of_denom_pos)
  have x: "x = of_int n / of_int d" using q by (rule quotient_of_div)
  have n: "0 < n" using assms d x by (simp add: zero_less_divide_iff)
  define k where "k = bitlen n - bitlen d"
  note bn = bitlen_powi_bounds[OF n] and bd = bitlen_powi_bounds[OF d]
  have dpos: "(0::rat) < of_int d" using d by simp
  have "x < 2 powi (bitlen n) / 2 powi (bitlen d - 1)"
    unfolding x using bn(2) bd(1) dpos n
    by (intro frac_less) auto
  also have "\<dots> = 2 powi (k + 1)"
    by (simp add: k_def power_int_diff [symmetric] algebra_simps)
  finally have up: "x < 2 powi (k + 1)" .
  have "2 powi (bitlen n - 1) / 2 powi (bitlen d) \<le> x"
    unfolding x using bn(1) bd(2) dpos n
    by (intro frac_le) auto
  then have lo: "2 powi (k - 1) \<le> x"
    by (simp add: k_def power_int_diff [symmetric] algebra_simps)
  have il: "ilog2 x = (if 2 powi k \<le> x then k else k - 1)"
    by (simp add: ilog2_def q k_def Let_def)
  show "2 powi (ilog2 x) \<le> x" using lo by (simp add: il)
  show "x < 2 powi (ilog2 x + 1)" using up by (auto simp add: il not_le)
qed

lemma ilog2_unique:
  assumes "2 powi k \<le> x" "x < 2 powi (k + 1)"
  shows "ilog2 x = k"
proof -
  have pos: "0 < x" using assms(1) by (rule less_le_trans[rotated]) simp
  note b = ilog2_bounds[OF pos]
  have "(2::rat) powi k < 2 powi (ilog2 x + 1)" using assms(1) b(2) by simp
  then have 1: "k < ilog2 x + 1" by (smt (verit) power_int_increasing one_le_numeral not_le)
  have "(2::rat) powi (ilog2 x) < 2 powi (k + 1)" using assms(2) b(1) by simp
  then have 2: "ilog2 x < k + 1" by (smt (verit) power_int_increasing one_le_numeral not_le)
  from 1 2 show ?thesis by simp
qed

lemma ilog2_mono:
  assumes "0 < x" "x \<le> y"
  shows "ilog2 x \<le> ilog2 y"
proof -
  have y: "0 < y" using assms by simp
  have "(2::rat) powi (ilog2 x) < 2 powi (ilog2 y + 1)"
    using ilog2_bounds(1)[OF assms(1)] ilog2_bounds(2)[OF y] assms(2) by simp
  then have "ilog2 x < ilog2 y + 1" by (smt (verit) power_int_increasing one_le_numeral not_le)
  then show ?thesis by simp
qed


lemma ulp_pos: "0 < ulp x"
  by (simp add: ulp_def)

lemma rhe_nonneg: "0 \<le> x \<Longrightarrow> 0 \<le> round_half_even x"
  using rhe_mono[of 0 x] rhe_of_int[of 0] by simp

lemma round64_minus: "round64 (- x) = - round64 x"
  by (simp add: round64_def sgn_minus)

lemma round64_nonneg: "0 \<le> x \<Longrightarrow> 0 \<le> round64 x"
  by (cases "x = 0") (simp_all add: round64_def rhe_nonneg ulp_pos less_imp_le sgn_if)

lemma round64_pos_eq:
  "0 < x \<Longrightarrow> round64 x = of_int (round_half_even (x / ulp x)) * ulp x"
  by (simp add: round64_def)

lemma round64_exact_pos:
  assumes m: "0 < m" "m < 2 ^ 53" and e: "- 1074 \<le> e"
  shows "round64 (of_int m * 2 powi e) = of_int m * 2 powi e"
proof -
  define x :: rat where "x = of_int m * 2 powi e"
  have pos: "0 < x" using m by (simp add: x_def)
  have "x < 2 ^ 53 * 2 powi e"
    unfolding x_def using m(2) by (intro mult_strict_right_mono) (simp_all flip: of_int_less_iff)
  also have "\<dots> = 2 powi (e + 53)" by (simp add: power_int_add)
  finally have "(2::rat) powi (ilog2 x) < 2 powi (e + 53)"
    using ilog2_bounds(1)[OF pos] by simp
  then have "ilog2 x < e + 53" by (smt (verit) power_int_increasing one_le_numeral not_le)
  define E where "E = max (ilog2 x) (- 1022) - 52"
  have E: "E \<le> e" using \<open>ilog2 x < e + 53\<close> e by (simp add: E_def)
  have u: "ulp x = 2 powi E" by (simp add: ulp_def E_def)
  have "2 powi e = (2::rat) powi (E + (e - E))" by simp
  also have "\<dots> = 2 powi E * 2 powi (e - E)" by (subst power_int_add) simp_all
  also have "(2::rat) powi (e - E) = 2 ^ nat (e - E)" using E by (simp add: power_int_def)
  finally have pe: "(2::rat) powi e = 2 powi E * 2 ^ nat (e - E)" .
  have xe: "x = of_int (m * 2 ^ nat (e - E)) * 2 powi E"
    by (simp add: x_def pe)
  have "x / ulp x = x / 2 powi E" by (simp only: u)
  also have "\<dots> = of_int (m * 2 ^ nat (e - E))" by (subst xe) simp
  finally have "round_half_even (x / ulp x) = m * 2 ^ nat (e - E)"
    by (simp only: rhe_of_int)
  then have "round64 x = of_int (m * 2 ^ nat (e - E)) * 2 powi E"
    using pos by (simp add: round64_pos_eq u)
  also have "\<dots> = x" by (simp only: xe)
  finally show ?thesis by (simp only: x_def)
qed

lemma round64_exact:
  assumes m: "\<bar>m\<bar> < 2 ^ 53" and e: "- 1074 \<le> e"
  shows "round64 (of_int m * 2 powi e) = of_int m * 2 powi e"
proof -
  consider "m = 0" | "0 < m" | "m < 0" by linarith
  then show ?thesis
  proof cases
    case 1
    then show ?thesis by (simp add: round64_def)
  next
    case 2
    then show ?thesis using round64_exact_pos[of m e] m e by simp
  next
    case 3
    then have "round64 (of_int (- m) * 2 powi e) = of_int (- m) * 2 powi e"
      using round64_exact_pos[of "- m" e] m e by simp
    then show ?thesis using round64_minus[of "of_int m * 2 powi e"] by simp
  qed
qed

lemma round64_mono_pos:
  assumes "0 < x" "x \<le> y"
  shows "round64 x \<le> round64 y"
proof -
  have y: "0 < y" using assms by simp
  define ex where "ex = max (ilog2 x) (- 1022) - 52"
  define ey where "ey = max (ilog2 y) (- 1022) - 52"
  have ux: "ulp x = 2 powi ex" and uy: "ulp y = 2 powi ey"
    by (simp_all add: ulp_def ex_def ey_def)
  have le: "ex \<le> ey" using ilog2_mono[OF assms] by (simp add: ex_def ey_def)
  show ?thesis
  proof (cases "ex = ey")
    case True
    then have "ulp x = ulp y" by (simp add: ux uy)
    moreover have "x / ulp y \<le> y / ulp y"
      using assms(2) ulp_pos[of y] by (simp add: divide_right_mono)
    ultimately show ?thesis
      using assms(1) y ulp_pos[of y]
      by (simp add: round64_pos_eq rhe_mono)
  next
    case False
    with le have lt: "ex + 1 \<le> ey" by simp
    then have ey': "ey = ilog2 y - 52" by (auto simp: ex_def ey_def max_def split: if_splits)
    have "x < 2 powi (ilog2 x + 1)" by (rule ilog2_bounds(2)[OF assms(1)])
    also have "\<dots> \<le> 2 powi (ex + 53)"
      by (intro power_int_increasing) (simp_all add: ex_def)
    also have "\<dots> = 2 ^ 53 * 2 powi ex" by (simp add: power_int_add)
    finally have "x / ulp x \<le> of_int (2 ^ 53)"
      by (simp add: ux pos_divide_le_eq)
    then have "round_half_even (x / ulp x) \<le> 2 ^ 53"
      using rhe_mono[of "x / ulp x" "of_int (2 ^ 53)"] by (simp only: rhe_of_int)
    then have "(of_int (round_half_even (x / ulp x)) :: rat) \<le> of_int (2 ^ 53)"
      by (simp only: of_int_le_iff)
    then have "round64 x \<le> 2 ^ 53 * 2 powi ex"
      using assms(1) by (simp add: round64_pos_eq ux)
    also have "\<dots> = 2 powi (ex + 1 + 52)" by (simp add: power_int_add)
    also have "\<dots> \<le> 2 powi (ey + 52)"
      using lt by (intro power_int_increasing) simp_all
    finally have a: "round64 x \<le> 2 powi (ey + 52)" .
    have "2 powi (ey + 52) \<le> y" using ilog2_bounds(1)[OF y] by (simp add: ey')
    moreover have "(2::rat) powi (ey + 52) = 2 ^ 52 * 2 powi ey" by (simp add: power_int_add)
    ultimately have "of_int (2 ^ 52) \<le> y / ulp y"
      by (simp add: uy pos_le_divide_eq)
    then have "2 ^ 52 \<le> round_half_even (y / ulp y)"
      using rhe_mono[of "of_int (2 ^ 52)" "y / ulp y"] by (simp only: rhe_of_int)
    then have "(of_int (2 ^ 52) :: rat) \<le> of_int (round_half_even (y / ulp y))"
      by (simp only: of_int_le_iff)
    then have "2 ^ 52 * 2 powi ey \<le> round64 y"
      using y by (simp add: round64_pos_eq uy)
    then have b: "2 powi (ey + 52) \<le> round64 y" by (simp add: power_int_add)
    from a b show ?thesis by simp
  qed
qed

lemma round64_mono:
  assumes "x \<le> y"
  shows "round64 x \<le> round64 y"
proof -
  consider "0 < x" | "x \<le> 0" "0 \<le> y" | "y < 0" using assms by linarith
  then show ?thesis
  proof cases
    case 1
    then show ?thesis using assms by (rule round64_mono_pos)
  next
    case 2
    have "round64 x \<le> 0" using round64_nonneg[of "- x"] 2(1) by (simp add: round64_minus)
    also have "0 \<le> round64 y" using 2(2) by (rule round64_nonneg)
    finally show ?thesis .
  next
    case 3
    then have "round64 (- y) \<le> round64 (- x)" using assms by (intro round64_mono_pos) simp_all
    then show ?thesis by (simp add: round64_minus)
  qed
qed


lemma to_number_not_NaN: "to_number x \<noteq> NaN"
  by (simp add: to_number_def Let_def)

lemma to_number_exact:
  assumes "\<bar>m\<bar> < 2 ^ 53" "- 1074 \<le> e" "\<bar>of_int m * 2 powi e\<bar> < (2::rat) ^ 1024"
  shows "to_number (of_int m * 2 powi e) = Fin (of_int m * 2 powi e)"
  using assms(3) by (simp add: to_number_def round64_exact[OF assms(1,2)] abs_less_iff not_le less_imp_le)

lemma to_number_int:
  assumes "\<bar>m\<bar> < 2 ^ 53"
  shows "to_number (of_int m) = Fin (of_int m)"
proof -
  have "\<bar>of_int m :: rat\<bar> < of_int (2 ^ 53)" using assms by (simp only: of_int_abs [symmetric] of_int_less_iff)
  also have "\<dots> < 2 ^ 1024" by simp
  finally show ?thesis using to_number_exact[OF assms, of 0] by simp
qed

lemma to_number_dyadic:
  assumes "\<bar>m\<bar> < 2 ^ 53" "k \<le> 1074"
  shows "to_number (of_int m / 2 ^ k) = Fin (of_int m / 2 ^ k)"
proof -
  have e: "(2::rat) powi (- int k) = 1 / 2 ^ k" by (simp add: power_int_minus field_simps)
  have "\<bar>of_int m :: rat\<bar> < of_int (2 ^ 53)" using assms by (simp only: of_int_abs [symmetric] of_int_less_iff)
  also have "\<dots> < 2 ^ 1024" by simp
  finally have "\<bar>of_int m :: rat\<bar> < 2 ^ 1024" .
  moreover have "\<bar>of_int m :: rat\<bar> / 2 ^ k \<le> \<bar>of_int m\<bar> / 1"
    by (rule divide_left_mono) simp_all
  then have "\<bar>of_int m / 2 ^ k :: rat\<bar> \<le> \<bar>of_int m\<bar>" by (simp add: abs_divide)
  ultimately have "\<bar>of_int m * 2 powi (- int k) :: rat\<bar> < 2 ^ 1024" by (simp add: e)
  then show ?thesis using to_number_exact[OF assms(1), of "- int k"] assms(2) by (simp add: e)
qed

lemma to_number_between:
  assumes a: "round64 a = a" and b: "round64 b = b"
    and x: "a \<le> x" "x \<le> b" and r: "- (2 ^ 1024) < a" "b < 2 ^ 1024"
  shows "\<exists>q. to_number x = Fin q \<and> a \<le> q \<and> q \<le> b"
proof -
  have "a \<le> round64 x" using round64_mono[OF x(1)] a by simp
  moreover have "round64 x \<le> b" using round64_mono[OF x(2)] b by simp
  ultimately show ?thesis using r by (simp add: to_number_def Let_def not_le)
qed

lemma to_number_overflow:
  assumes "2 ^ 1024 \<le> x"
  shows "to_number x = PosInf"
proof -
  have "round64 (of_int 1 * 2 powi 1024) = of_int 1 * 2 powi 1024"
    by (rule round64_exact) simp_all
  then have "round64 (2 ^ 1024) = 2 ^ 1024" by simp
  then have "2 ^ 1024 \<le> round64 x" using round64_mono[OF assms] by simp
  then show ?thesis by (simp add: to_number_def)
qed

lemma round64_int: "\<bar>m\<bar> < 2 ^ 53 \<Longrightarrow> round64 (of_int m) = of_int m"
  using round64_exact[of m 0] by simp

lemma round64_dyadic:
  assumes "\<bar>m\<bar> < 2 ^ 53" "k \<le> 1074"
  shows "round64 (of_int m / 2 ^ k) = of_int m / 2 ^ k"
proof -
  have e: "(2::rat) powi (- int k) = 1 / 2 ^ k" by (simp add: power_int_minus field_simps)
  show ?thesis using round64_exact[OF assms(1), of "- int k"] assms(2) by (simp add: e)
qed

lemma rhe_near:
  assumes "of_int n - 1 / 2 < x" "x < of_int n + 1 / 2"
  shows "round_half_even x = n"
proof -
  have "\<lfloor>x\<rfloor> = n \<or> \<lfloor>x\<rfloor> = n - 1" using assms by linarith
  then show ?thesis
  proof
    assume f: "\<lfloor>x\<rfloor> = n"
    then have "x - of_int n < 1 / 2" using assms by simp
    then show ?thesis by (simp add: round_half_even_def f)
  next
    assume f: "\<lfloor>x\<rfloor> = n - 1"
    then have "1 / 2 < x - of_int (n - 1)" using assms by simp
    then show ?thesis by (simp add: round_half_even_def f Let_def)
  qed
qed

lemma round64_1234: "round64 (617 / 500) = 694680242521899 / 562949953421312"
proof -
  have i: "ilog2 (617 / 500) = 0" by (rule ilog2_unique) simp_all
  have u: "ulp (617 / 500) = 1 / 4503599627370496" by (simp add: ulp_def i power_int_minus)
  have r: "round_half_even (694680242521899008 / 125) = 5557441940175192"
    by (rule rhe_near) simp_all
  have "round64 (617 / 500) = of_int (round_half_even (617 / 500 / ulp (617 / 500))) * ulp (617 / 500)"
    by (rule round64_pos_eq) simp
  then show ?thesis by (simp add: u r)
qed

lemma to_number_1234: "to_number (1234 / 1000) = Fin (694680242521899 / 562949953421312)"
  by (simp add: to_number_def round64_1234)

lemma to_number_ge:
  assumes "round64 c = c" "c \<le> x" "- (2 ^ 1024) < c"
  shows "to_number x = PosInf \<or> (\<exists>q. to_number x = Fin q \<and> c \<le> q)"
proof -
  define B :: rat where "B = 2 ^ 1024"
  have "c \<le> round64 x" using round64_mono[OF assms(2)] assms(1) by simp
  moreover have "- B < c" using assms(3) by (simp only: B_def)
  ultimately have "\<not> round64 x \<le> - B" by linarith
  then show ?thesis
    using \<open>c \<le> round64 x\<close> unfolding to_number_def Let_def B_def by (simp only: if_False) simp
qed

lemma to_number_le:
  assumes "round64 c = c" "x \<le> c" "c < 2 ^ 1024"
  shows "to_number x = NegInf \<or> (\<exists>q. to_number x = Fin q \<and> q \<le> c)"
proof -
  define B :: rat where "B = 2 ^ 1024"
  have "round64 x \<le> c" using round64_mono[OF assms(2)] assms(1) by simp
  moreover have "c < B" using assms(3) by (simp only: B_def)
  ultimately have "\<not> B \<le> round64 x" by linarith
  then show ?thesis
    using \<open>round64 x \<le> c\<close> unfolding to_number_def Let_def B_def by (simp only: if_False) simp
qed

lemma round64_0: "round64 0 = 0" by (simp add: round64_def)
lemma round64_1: "round64 1 = 1" using round64_int[of 1] by simp
lemma round64_30: "round64 30 = 30" using round64_int[of 30] by simp

section \<open>Trimming, replacing and the numeric grammar\<close>

lemma comma_not_ws: "\<not> StrWhiteSpaceChar 0x2C"
  by (simp add: StrWhiteSpaceChar_def WhiteSpace_def LineTerminator_def)

lemma in_dropWhile: "c \<in> set s \<Longrightarrow> \<not> P c \<Longrightarrow> c \<in> set (dropWhile P s)"
  by (induction s) auto

lemma trim_all_ws: "list_all StrWhiteSpaceChar s \<Longrightarrow> trim s = []"
  by (auto simp add: trim_def list_all_iff dropWhile_eq_Nil_conv dest: set_dropWhileD)

lemma trim_keeps:
  assumes "c \<in> set s" "\<not> StrWhiteSpaceChar c"
  shows "c \<in> set (trim s)"
  using in_dropWhile[of c "rev (dropWhile StrWhiteSpaceChar s)" StrWhiteSpaceChar]
    in_dropWhile[of c s StrWhiteSpaceChar] assms
  by (simp add: trim_def)

lemma trim_append_ws:
  assumes a: "list_all StrWhiteSpaceChar a" and b: "list_all StrWhiteSpaceChar b"
  shows "trim (a @ s @ b) = trim s"
proof -
  have 1: "dropWhile StrWhiteSpaceChar (a @ s @ b) = dropWhile StrWhiteSpaceChar (s @ b)"
    using a by (intro dropWhile_append2) (simp add: list_all_iff)
  show ?thesis
  proof (cases "list_all StrWhiteSpaceChar s")
    case True
    then have "list_all StrWhiteSpaceChar (a @ s @ b)" using a b by simp
    then show ?thesis using True by (simp only: trim_all_ws)
  next
    case False
    then obtain x where x: "x \<in> set s" "\<not> StrWhiteSpaceChar x" by (auto simp: list_all_iff)
    have 2: "dropWhile StrWhiteSpaceChar (s @ b) = dropWhile StrWhiteSpaceChar s @ b"
      using x by (rule dropWhile_append1)
    have 3: "dropWhile StrWhiteSpaceChar (rev b @ rev (dropWhile StrWhiteSpaceChar s))
        = dropWhile StrWhiteSpaceChar (rev (dropWhile StrWhiteSpaceChar s))"
      using b by (intro dropWhile_append2) (simp add: list_all_iff)
    show ?thesis by (simp add: trim_def 1 2 3)
  qed
qed

lemma replace_notin: "a \<notin> set s \<Longrightarrow> replace a r s = s"
  by (induction s) auto

lemma replace_first: "a \<notin> set xs \<Longrightarrow> replace a r (xs @ a # ys) = xs @ r @ ys"
  by (induction xs) auto

lemma replace_leaves_second:
  "2 \<le> count_list s a \<Longrightarrow> a \<in> set (replace a r s)"
proof (induction s)
  case Nil
  then show ?case by simp
next
  case (Cons c cs)
  show ?case
  proof (cases "c = a")
    case True
    with Cons.prems have "1 \<le> count_list cs a" by simp
    then have "a \<in> set cs" by (metis count_list_0_iff not_one_le_zero)
    then show ?thesis using True by simp
  next
    case False
    then show ?thesis using Cons by simp
  qed
qed

lemma comma_not_digit: "\<not> is_digit 0x2C"
  by (simp add: is_digit_def)

lemma comma_not_radix_digit: "\<not> is_radix_digit r 0x2C"
  by (simp add: is_radix_digit_def is_digit_def)

lemma DecimalDigits_no_comma: "DecimalDigits ds = Some v \<Longrightarrow> 0x2C \<notin> set ds"
  using comma_not_digit by (auto simp: DecimalDigits_def list_all_iff split: if_splits)

lemma SignedInteger_no_comma: "SignedInteger ds = Some v \<Longrightarrow> 0x2C \<notin> set ds"
  by (cases ds) (auto simp: SignedInteger_def dest: DecimalDigits_no_comma split: if_splits)

lemma ExponentPart_no_comma: "ExponentPart t = Some v \<Longrightarrow> 0x2C \<notin> set t"
  by (cases t) (auto simp: ExponentPart_def dest: SignedInteger_no_comma split: if_splits)

lemma takeWhile_digit_no_comma: "0x2C \<notin> set (takeWhile is_digit u)"
  using comma_not_digit by (auto dest: set_takeWhileD)

lemma NonDecimalIntegerLiteral_no_comma:
  "NonDecimalIntegerLiteral t = Some v \<Longrightarrow> 0x2C \<notin> set t"
  using comma_not_radix_digit
  by (auto simp: NonDecimalIntegerLiteral_def radix_of_def list_all_iff
      split: list.splits option.splits if_splits)


lemma StrUnsignedDecimalLiteral_no_comma:
  assumes "StrUnsignedDecimalLiteral u = Some v"
  shows "0x2C \<notin> set u"
proof -
  define r1 where "r1 = dropWhile is_digit u"
  define dot where "dot = (r1 \<noteq> [] \<and> hd r1 = 0x2E)"
  define r2 where "r2 = (if dot then dropWhile is_digit (tl r1) else r1)"
  have u: "u = takeWhile is_digit u @ r1" by (simp add: r1_def)
  from assms obtain e where e: "ExponentPart r2 = Some e"
    by (auto simp: StrUnsignedDecimalLiteral_def Let_def r1_def dot_def r2_def
        split: if_splits option.splits)
  then have r2: "0x2C \<notin> set r2" by (rule ExponentPart_no_comma)
  have "0x2C \<notin> set r1"
  proof (cases dot)
    case True
    then obtain r where r1: "r1 = 0x2E # r" by (cases r1) (auto simp: dot_def)
    have "r = takeWhile is_digit r @ dropWhile is_digit r" by simp
    moreover have "0x2C \<notin> set (dropWhile is_digit r)" using r2 True r1 by (simp add: r2_def)
    ultimately have "0x2C \<notin> set r"
      using takeWhile_digit_no_comma[of r] by (metis Un_iff set_append)
    then show ?thesis by (simp add: r1)
  next
    case False
    then show ?thesis using r2 by (simp add: r2_def)
  qed
  then show ?thesis using takeWhile_digit_no_comma[of u] u by (metis Un_iff set_append)
qed

lemma StrUnsigned_no_comma: "StrUnsigned u = Some v \<Longrightarrow> 0x2C \<notin> set u"
  by (auto simp: StrUnsigned_def str_def dest: StrUnsignedDecimalLiteral_no_comma split: if_splits)

lemma StrDecimalLiteral_no_comma: "StrDecimalLiteral t = Some v \<Longrightarrow> 0x2C \<notin> set t"
  by (cases t) (auto simp: StrDecimalLiteral_def dest: StrUnsigned_no_comma split: if_splits)

lemma StrNumericLiteral_no_comma: "StrNumericLiteral t = Some v \<Longrightarrow> 0x2C \<notin> set t"
  by (auto simp: StrNumericLiteral_def
      dest: StrDecimalLiteral_no_comma NonDecimalIntegerLiteral_no_comma split: option.splits)

lemma Number_comma: "0x2C \<in> set s \<Longrightarrow> Number s = NaN"
proof -
  assume "0x2C \<in> set s"
  then have t: "0x2C \<in> set (trim s)" using comma_not_ws by (rule trim_keeps)
  then have "StrNumericLiteral (trim s) = None"
    using StrNumericLiteral_no_comma[of "trim s"] by (cases "StrNumericLiteral (trim s)") auto
  moreover have "trim s \<noteq> []" using t by auto
  ultimately show ?thesis by (simp add: Number_def)
qed

lemma last_dropWhile_ne: "dropWhile P xs \<noteq> [] \<Longrightarrow> last (dropWhile P xs) = last xs"
  by (induction xs) (auto split: if_splits)

lemma dropWhile_id: "xs = [] \<or> \<not> P (hd xs) \<Longrightarrow> dropWhile P xs = xs"
  by (cases xs) auto

lemma trim_trim: "trim (trim s) = trim s"
proof -
  define A where "A = dropWhile StrWhiteSpaceChar s"
  define B where "B = dropWhile StrWhiteSpaceChar (rev A)"
  have ts: "trim s = rev B" by (simp add: trim_def A_def B_def)
  have "rev B = [] \<or> \<not> StrWhiteSpaceChar (hd (rev B))"
  proof (cases "B = []")
    case True
    then show ?thesis by simp
  next
    case False
    then have "last B = last (rev A)" unfolding B_def by (rule last_dropWhile_ne)
    moreover have A: "A \<noteq> []" using False by (auto simp: B_def)
    ultimately have "last B = hd A" by (simp add: last_rev)
    moreover have "\<not> StrWhiteSpaceChar (hd A)" using A unfolding A_def by (rule hd_dropWhile)
    ultimately show ?thesis using False by (simp add: hd_rev)
  qed
  then have 1: "dropWhile StrWhiteSpaceChar (rev B) = rev B" by (rule dropWhile_id)
  have 2: "dropWhile StrWhiteSpaceChar B = B" by (simp add: B_def)
  show ?thesis unfolding ts by (simp add: trim_def 1 2)
qed

section \<open>Facts about \<^verbatim>\<open>parseNumber\<close>\<close>

lemmas parse_defs = parseNumber_v1_def str_def trim_def Number_def
  StrWhiteSpaceChar_def WhiteSpace_def LineTerminator_def
  StrNumericLiteral_def NonDecimalIntegerLiteral_def radix_of_def StrDecimalLiteral_def
  StrUnsigned_def StrUnsignedDecimalLiteral_def ExponentPart_def SignedInteger_def
  DecimalDigits_def is_digit_def digits_value_def digit_value_def is_radix_digit_def Let_def

lemma parseNumber_v2_v1: "parseNumber_v2 s = parseNumber_v1 s"
  by (simp add: parseNumber_v1_def parseNumber_v2_def)

lemma replace_append_left: "a \<notin> set xs \<Longrightarrow> replace a r (xs @ ys) = xs @ replace a r ys"
  by (induction xs) auto

lemma replace_append_right: "a \<notin> set ys \<Longrightarrow> replace a r (xs @ ys) = replace a r xs @ ys"
  by (induction xs) (auto simp: replace_notin)

lemma ws_no_comma: "list_all StrWhiteSpaceChar a \<Longrightarrow> 0x2C \<notin> set a"
  using comma_not_ws by (auto simp: list_all_iff)

lemma Number_trim: "Number (trim s) = Number s"
  by (simp add: Number_def trim_trim)

text \<open>\<^verbatim>\<open>parseNumber\<close> in one equation: the normalized text, then the grammar, then finiteness.\<close>

lemma parseNumber_v1_eq:
  "parseNumber_v1 s =
     (case StrNumericLiteral (trim (replace 0x2C (str ''.'') s)) of
        None \<Rightarrow> None
      | Some v \<Rightarrow> if Number_isFinite v then Some v else None)"
proof -
  define t where "t = trim (replace 0x2C (str ''.'') s)"
  have tt: "trim t = t" by (simp add: t_def trim_trim)
  have e: "StrNumericLiteral [] = None"
    by (simp add: StrNumericLiteral_def NonDecimalIntegerLiteral_def StrDecimalLiteral_def)
  show ?thesis
    unfolding parseNumber_v1_def t_def[symmetric] Let_def
    by (cases "t = []") (auto simp: Number_def tt e split: option.splits)
qed

lemma parseNumber_ws: "list_all StrWhiteSpaceChar s \<Longrightarrow> parseNumber_v1 s = None"
  by (simp add: parseNumber_v1_def replace_notin ws_no_comma trim_all_ws)

lemma parseNumber_pad:
  assumes "list_all StrWhiteSpaceChar a" "list_all StrWhiteSpaceChar b"
  shows "parseNumber_v1 (a @ s @ b) = parseNumber_v1 s"
proof -
  have "replace 0x2C (str ''.'') (a @ s @ b) = a @ replace 0x2C (str ''.'') s @ b"
    using assms by (simp add: replace_append_left replace_append_right ws_no_comma)
  then show ?thesis using assms by (simp add: parseNumber_v1_def trim_append_ws)
qed

lemma parseNumber_comma:
  assumes "0x2C \<notin> set xs" "0x2C \<notin> set ys"
  shows "parseNumber_v1 (xs @ 0x2C # ys) = parseNumber_v1 (xs @ 0x2E # ys)"
proof -
  have "replace 0x2C (str ''.'') (xs @ 0x2E # ys) = xs @ 0x2E # ys"
    using assms by (intro replace_notin) simp
  moreover have "replace 0x2C (str ''.'') (xs @ 0x2C # ys) = xs @ 0x2E # ys"
    using assms by (simp add: replace_first str_def)
  ultimately show ?thesis by (simp add: parseNumber_v1_def)
qed

lemma parseNumber_two_commas:
  assumes "2 \<le> count_list s 0x2C"
  shows "parseNumber_v1 s = None"
proof -
  have "0x2C \<in> set (replace 0x2C (str ''.'') s)" using assms by (rule replace_leaves_second)
  then have c: "0x2C \<in> set (trim (replace 0x2C (str ''.'') s))"
    using comma_not_ws by (rule trim_keeps)
  then have "Number (trim (replace 0x2C (str ''.'') s)) = NaN" by (rule Number_comma)
  then show ?thesis by (simp add: parseNumber_v1_def Let_def)
qed

lemma parse_blank: "parseNumber_v1 (str '''') = None" "parseNumber_v1 (str ''  '') = None"
  by (simp_all add: parse_defs)

lemma parse_68: "parseNumber_v1 (str ''68'') = Some (Fin 68)"
  using to_number_int[of 68] by (simp add: parse_defs)

lemma parse_68_5: "parseNumber_v1 (str ''68,5'') = Some (Fin (685 / 10))"
  using to_number_dyadic[of 137 1] by (simp add: parse_defs)

lemma parse_abc: "parseNumber_v1 (str ''abc'') = None"
  by (simp add: parse_defs)

lemma Number_1e400: "Number (str ''1e400'') = PosInf"
  using to_number_overflow[of "10 ^ 400"] by (simp add: parse_defs)

lemma parse_1e400: "parseNumber_v1 (str ''1e400'') = None"
  using to_number_overflow[of "10 ^ 400"] by (simp add: parse_defs)

lemma parse_1_234: "parseNumber_v1 (str ''1,234'') = Some (to_number (1234 / 1000))"
  using to_number_1234 by (simp add: parse_defs)

lemma parse_1_2_3: "parseNumber_v1 (str ''1,2,3'') = None"
  by (rule parseNumber_two_commas) (simp add: str_def)

section \<open>Facts about the handlers\<close>

lemma heightValue_v2_v1: "heightValue_v2 p = heightValue_v1 p"
  by (simp add: heightValue_v1_def heightValue_v2_def parseNumber_v2_v1)

lemma weightValue_v2_v1: "weightValue_v2 p = weightValue_v1 p"
  by (simp add: weightValue_v1_def weightValue_v2_def parseNumber_v2_v1)

lemma valid_v2_v1: "valid_v2 p = valid_v1 p"
  by (simp add: valid_v1_def valid_v2_def heightValue_v2_v1 weightValue_v2_v1)

lemma nextBmi_v2_v1: "nextBmi_v2 h w = nextBmi_v1 h w"
  by (simp add: nextBmi_v1_def nextBmi_v2_def)

lemma normalized_v2_v1: "normalized_v2 b = normalized_v1 b"
  by (simp add: normalized_v1_def normalized_v2_def)

lemma parseNumber_finite: "parseNumber_v1 s = Some v \<Longrightarrow> \<exists>q. v = Fin q"
  by (cases v) (auto simp: parseNumber_v1_def Let_def split: if_splits)

text \<open>The range of an accepted BMI: it is finite, between 1/2 and 6400.\<close>

lemma nextBmi_range:
  assumes a: "40 < a" "a < 260" and b: "10 < b" "b < 400"
  shows "\<exists>q. nextBmi_v1 (Fin a) (Fin b) = Fin q \<and> 1 / 2 \<le> q \<and> q \<le> 6400"
proof -
  have r4: "round64 (1 / 4) = 1 / 4" using round64_dyadic[of 1 2] by simp
  have r16: "round64 (1 / 16) = 1 / 16" using round64_dyadic[of 1 4] by simp
  have r2: "round64 (1 / 2) = 1 / 2" using round64_dyadic[of 1 1] by simp
  have i4: "round64 4 = 4" using round64_int[of 4] by simp
  have i16: "round64 16 = 16" using round64_int[of 16] by simp
  have i6400: "round64 6400 = 6400" using round64_int[of 6400] by simp
  have "1 / 4 \<le> a / 100" "a / 100 \<le> 4" using a by simp_all
  then have "\<exists>q. to_number (a / 100) = Fin q \<and> 1 / 4 \<le> q \<and> q \<le> 4"
    by (intro to_number_between[OF r4 i4]) simp_all
  then obtain m where m: "to_number (a / 100) = Fin m" "1 / 4 \<le> m" "m \<le> 4" by blast
  have "1 / 4 * (1 / 4) \<le> m * m" using m(2) by (intro mult_mono) simp_all
  then have l1: "1 / 16 \<le> m * m" by simp
  have "m * m \<le> 4 * 4" using m(2,3) by (intro mult_mono) simp_all
  then have u1: "m * m \<le> 16" by simp
  have "\<exists>q. to_number (m * m) = Fin q \<and> 1 / 16 \<le> q \<and> q \<le> 16"
    using l1 u1 by (intro to_number_between[OF r16 i16]) simp_all
  then obtain s where s: "to_number (m * m) = Fin s" "1 / 16 \<le> s" "s \<le> 16" by blast
  have s0: "0 < s" using s(2) by simp
  have "b / s \<le> 400 / (1 / 16)" using b s(2) s0 by (intro frac_le) simp_all
  then have u2: "b / s \<le> 6400" by simp
  have "10 / 16 \<le> b / s" using b s(3) s0 by (intro frac_le) simp_all
  then have l2: "1 / 2 \<le> b / s" by linarith
  have "\<exists>q. to_number (b / s) = Fin q \<and> 1 / 2 \<le> q \<and> q \<le> 6400"
    using l2 u2 by (intro to_number_between[OF r2 i6400]) simp_all
  then obtain q where q: "to_number (b / s) = Fin q" "1 / 2 \<le> q" "q \<le> 6400" by blast
  have "nextBmi_v1 (Fin a) (Fin b) = Fin q"
    using m(1) s(1) q(1) s0 by (simp add: nextBmi_v1_def Let_def)
  then show ?thesis using q by blast
qed

lemma normalized_clamp:
  "x \<noteq> NaN \<Longrightarrow> Math_max (Fin 0) (Math_min (Fin 1) x) = clamp x (Fin 0) (Fin 1)"
  by (cases x) (auto simp: Math_max_def Math_min_def clamp_def js_gt_def)

lemma clamp_unit:
  "x \<noteq> NaN \<Longrightarrow> js_le (Fin 0) (clamp x (Fin 0) (Fin 1)) \<and> js_le (clamp x (Fin 0) (Fin 1)) (Fin 1)"
  by (cases x) (auto simp: clamp_def js_gt_def js_le_def)

lemma scale_not_NaN: "b \<noteq> NaN \<Longrightarrow> js_div (js_sub b (Fin 10)) (Fin 30) \<noteq> NaN"
proof (cases b)
  case (Fin x)
  then show ?thesis
    by (cases "to_number (x - 10)") (simp_all add: to_number_not_NaN)
qed simp_all

lemma normalized_v1_clamp:
  assumes "b \<noteq> NaN"
  shows "normalized_v1 b = clamp (js_div (js_sub b (Fin 10)) (Fin 30)) (Fin 0) (Fin 1)"
    "js_le (Fin 0) (normalized_v1 b)" "js_le (normalized_v1 b) (Fin 1)"
  using scale_not_NaN[OF assms] by (simp_all add: normalized_v1_def normalized_clamp clamp_unit)

lemma normalized_low:
  assumes "js_lt b (Fin 10)"
  shows "normalized_v1 b = Fin 0"
proof (cases b)
  case (Fin x)
  then have "x - 10 \<le> 0" using assms by simp
  then consider "to_number (x - 10) = NegInf" | q where "to_number (x - 10) = Fin q" "q \<le> 0"
    using to_number_le[OF round64_0, of "x - 10"] by auto
  then show ?thesis
  proof cases
    case 1
    then show ?thesis using Fin by (simp add: normalized_v1_def Math_max_def Math_min_def)
  next
    case 2
    then have "q / 30 \<le> 0" by simp
    then consider "to_number (q / 30) = NegInf" | r where "to_number (q / 30) = Fin r" "r \<le> 0"
      using to_number_le[OF round64_0, of "q / 30"] by auto
    then show ?thesis
      using Fin 2 by cases (simp_all add: normalized_v1_def Math_max_def Math_min_def)
  qed
next
  case NegInf
  then show ?thesis by (simp add: normalized_v1_def Math_max_def Math_min_def)
qed (use assms in simp_all)

lemma normalized_high:
  assumes "js_gt b (Fin 40)"
  shows "normalized_v1 b = Fin 1"
proof (cases b)
  case (Fin x)
  then have "30 \<le> x - 10" using assms by (simp add: js_gt_def)
  then consider "to_number (x - 10) = PosInf" | q where "to_number (x - 10) = Fin q" "30 \<le> q"
    using to_number_ge[OF round64_30, of "x - 10"] by auto
  then show ?thesis
  proof cases
    case 1
    then show ?thesis using Fin by (simp add: normalized_v1_def Math_max_def Math_min_def)
  next
    case 2
    then have "1 \<le> q / 30" by simp
    then consider "to_number (q / 30) = PosInf" | r where "to_number (q / 30) = Fin r" "1 \<le> r"
      using to_number_ge[OF round64_1, of "q / 30"] by auto
    then show ?thesis
      using Fin 2 by cases (auto simp add: normalized_v1_def Math_max_def Math_min_def)
  qed
next
  case PosInf
  then show ?thesis by (simp add: normalized_v1_def Math_max_def Math_min_def)
qed (use assms in \<open>simp_all add: js_gt_def\<close>)

lemma normalized_values:
  "normalized_v1 (Fin 10) = Fin 0" "normalized_v1 (Fin 25) = Fin (1 / 2)"
  "normalized_v1 (Fin 40) = Fin 1" "normalized_v1 (Fin 5) = Fin 0" "normalized_v1 (Fin 55) = Fin 1"
proof -
  have z: "to_number 0 = Fin 0" using to_number_int[of 0] by simp
  have a: "to_number 15 = Fin 15" using to_number_int[of 15] by simp
  have h: "to_number (1 / 2) = Fin (1 / 2)" using to_number_dyadic[of 1 1] by simp
  have b: "to_number 30 = Fin 30" using to_number_int[of 30] by simp
  have o: "to_number 1 = Fin 1" using to_number_int[of 1] by simp
  show "normalized_v1 (Fin 10) = Fin 0"
    by (simp add: normalized_v1_def Math_max_def Math_min_def z)
  show "normalized_v1 (Fin 25) = Fin (1 / 2)"
    by (simp add: normalized_v1_def Math_max_def Math_min_def a h)
  show "normalized_v1 (Fin 40) = Fin 1"
    by (simp add: normalized_v1_def Math_max_def Math_min_def b o)
  show "normalized_v1 (Fin 5) = Fin 0" by (rule normalized_low) simp
  show "normalized_v1 (Fin 55) = Fin 1" by (rule normalized_high) (simp add: js_gt_def)
qed

lemma valid_v1_iff:
  "valid_v1 p \<longleftrightarrow>
     (\<exists>a b. heightValue_v1 p = Some (Fin a) \<and> weightValue_v1 p = Some (Fin b)
        \<and> 40 < a \<and> a < 260 \<and> 10 < b \<and> b < 400)"
proof
  assume v: "valid_v1 p"
  then obtain h w where hw: "heightValue_v1 p = Some h" "weightValue_v1 p = Some w"
    by (auto simp: valid_v1_def split: option.splits)
  then obtain a b where "h = Fin a" "w = Fin b"
    using parseNumber_finite[of "heightCm p" h] parseNumber_finite[of "weightKg p" w]
    by (auto simp: heightValue_v1_def weightValue_v1_def)
  then show "\<exists>a b. heightValue_v1 p = Some (Fin a) \<and> weightValue_v1 p = Some (Fin b)
        \<and> 40 < a \<and> a < 260 \<and> 10 < b \<and> b < 400"
    using v hw by (auto simp: valid_v1_def js_gt_def)
next
  assume "\<exists>a b. heightValue_v1 p = Some (Fin a) \<and> weightValue_v1 p = Some (Fin b)
        \<and> 40 < a \<and> a < 260 \<and> 10 < b \<and> b < 400"
  then show "valid_v1 p" by (auto simp: valid_v1_def js_gt_def)
qed

lemma onCalculate_v1_rejected:
  "\<not> valid_v1 p \<Longrightarrow> onCalculate_v1 p =
     (p\<lparr>bmi := None\<rparr>,
      triggerInvalidShake_v1 @
      [Assign reveal (withTiming (Fin 0) 180 None), Assign progress (withTiming (Fin 0) 180 None)])"
  by (simp add: onCalculate_v1_def)

lemma onCalculate_v1_accepted:
  "valid_v1 p \<Longrightarrow> heightValue_v1 p = Some h \<Longrightarrow> weightValue_v1 p = Some w \<Longrightarrow>
   onCalculate_v1 p =
     (p\<lparr>bmi := Some (nextBmi_v1 h w)\<rparr>,
      [Assign reveal (withSpring (Fin 1) 14 140),
       Assign progress (withTiming (normalized_v1 (nextBmi_v1 h w)) 500 (Some out_cubic))])"
  by (simp add: onCalculate_v1_def Let_def)

lemma onCalculate_v2_rejected:
  "\<not> valid_v1 p \<Longrightarrow> onCalculate_v2 p =
     (p\<lparr>bmi := None\<rparr>,
      triggerInvalidShake_v2 @
      [setValue indicatorPop (Fin 0),
       start (parallel [timing reveal (Fin 0) 160 True, timing progress (Fin 0) 180 False])])"
  by (simp add: onCalculate_v2_def valid_v2_v1)

lemma onCalculate_v2_accepted:
  "valid_v1 p \<Longrightarrow> heightValue_v1 p = Some h \<Longrightarrow> weightValue_v1 p = Some w \<Longrightarrow>
   onCalculate_v2 p =
     (p\<lparr>bmi := Some (nextBmi_v1 h w)\<rparr>,
      [start (timing reveal (Fin 1) 220 True),
       start (timing progress (normalized_v1 (nextBmi_v1 h w)) 480 False)] @
      triggerIndicatorPop_v2)"
  by (simp add: onCalculate_v2_def Let_def valid_v2_v1 heightValue_v2_v1 weightValue_v2_v1
      nextBmi_v2_v1 normalized_v2_v1)

lemma evaluate_v1_eq:
  "evaluate_v1 p =
     (if valid_v1 p then Accepted (nextBmi_v1 (the (heightValue_v1 p)) (the (weightValue_v1 p)))
      else Rejected)"
  by (simp add: evaluate_v1_def onCalculate_v1_def Let_def)

lemma evaluate_v2_v1: "evaluate_v2 p = evaluate_v1 p"
  by (simp add: evaluate_v1_def evaluate_v2_def onCalculate_v1_def onCalculate_v2_def Let_def
      valid_v2_v1 heightValue_v2_v1 weightValue_v2_v1 nextBmi_v2_v1)

lemma nextBmi_square: "nextBmi_v1 h w = js_div w (square (js_div h (Fin 100)))"
  by (simp add: nextBmi_v1_def square_def Let_def)

lemma bounds_valid:
  assumes "heightValue_v1 p = Some h" "weightValue_v1 p = Some w"
    "js_gt h (Fin 40)" "js_lt h (Fin 260)" "js_gt w (Fin 10)" "js_lt w (Fin 400)"
  shows "valid_v1 p"
  using assms by (simp add: valid_v1_def)

lemma nextBmi_172_68:
  "\<exists>q. nextBmi_v1 (Fin 172) (Fin 68) = Fin q \<and> 735 / 32 \<le> q \<and> q \<le> 23551 / 1024"
proof -
  have rl: "round64 (7045 / 4096) = 7045 / 4096" using round64_dyadic[of 7045 12] by simp
  have ru: "round64 (7046 / 4096) = 7046 / 4096" using round64_dyadic[of 7046 12] by simp
  have sl: "round64 (49632025 / 16777216) = 49632025 / 16777216"
    using round64_dyadic[of 49632025 24] by simp
  have su: "round64 (49646116 / 16777216) = 49646116 / 16777216"
    using round64_dyadic[of 49646116 24] by simp
  have ql: "round64 (735 / 32) = 735 / 32" using round64_dyadic[of 735 5] by simp
  have qu: "round64 (23551 / 1024) = 23551 / 1024" using round64_dyadic[of 23551 10] by simp
  have "\<exists>q. to_number (172 / 100) = Fin q \<and> 7045 / 4096 \<le> q \<and> q \<le> 7046 / 4096"
    by (intro to_number_between[OF rl ru]) simp_all
  then obtain m where m: "to_number (172 / 100) = Fin m" "7045 / 4096 \<le> m" "m \<le> 7046 / 4096"
    by blast
  have "7045 / 4096 * (7045 / 4096) \<le> m * m" using m(2) by (intro mult_mono) simp_all
  then have l1: "49632025 / 16777216 \<le> m * m" by simp
  have "m * m \<le> 7046 / 4096 * (7046 / 4096)" using m(2,3) by (intro mult_mono) simp_all
  then have u1: "m * m \<le> 49646116 / 16777216" by simp
  have "\<exists>q. to_number (m * m) = Fin q \<and> 49632025 / 16777216 \<le> q \<and> q \<le> 49646116 / 16777216"
    using l1 u1 by (intro to_number_between[OF sl su]) simp_all
  then obtain s where s: "to_number (m * m) = Fin s" "49632025 / 16777216 \<le> s"
    "s \<le> 49646116 / 16777216" by blast
  have s0: "0 < s" using s(2) by simp
  have "68 / s \<le> 68 / (49632025 / 16777216)" using s(2) s0 by (intro frac_le) simp_all
  then have u2: "68 / s \<le> 23551 / 1024" by simp
  have "68 / (49646116 / 16777216) \<le> 68 / s" using s(3) s0 by (intro frac_le) simp_all
  then have l2: "735 / 32 \<le> 68 / s" by simp
  have "\<exists>q. to_number (68 / s) = Fin q \<and> 735 / 32 \<le> q \<and> q \<le> 23551 / 1024"
    using l2 u2 by (intro to_number_between[OF ql qu]) simp_all
  then obtain q where q: "to_number (68 / s) = Fin q" "735 / 32 \<le> q" "q \<le> 23551 / 1024"
    by blast
  have "nextBmi_v1 (Fin 172) (Fin 68) = Fin q"
    using m(1) s(1) q(1) s0 by (simp add: nextBmi_v1_def Let_def)
  then show ?thesis using q by blast
qed

lemma round1_23:
  assumes "735 / 32 \<le> q" "q \<le> 23551 / 1024"
  shows "round1_v1 big (Fin q) = str ''23.0''"
proof -
  have rl: "round64 (3675 / 16) = 3675 / 16" using round64_dyadic[of 3675 4] by simp
  have ru: "round64 (117755 / 512) = 117755 / 512" using round64_dyadic[of 117755 9] by simp
  have "\<exists>t. to_number (q * 10) = Fin t \<and> 3675 / 16 \<le> t \<and> t \<le> 117755 / 512"
    using assms by (intro to_number_between[OF rl ru]) simp_all
  then obtain t where t: "to_number (q * 10) = Fin t" "3675 / 16 \<le> t" "t \<le> 117755 / 512"
    by blast
  have f: "\<lfloor>t + 1 / 2\<rfloor> = 230" using t(2,3) by linarith
  have n: "to_number 23 = Fin 23" using to_number_int[of 23] by simp
  have d: "dec 230 = str ''230''" by (simp add: dec.simps str_def)
  have g: "\<lfloor>461 / 2 :: rat\<rfloor> = 230" by (rule floor_unique) simp_all
  show ?thesis
    by (simp add: round1_v1_def t(1) f n toFixed_def g d) (simp add: str_def)
qed


lemma parse_172: "parseNumber_v1 (str ''172'') = Some (Fin 172)"
  using to_number_int[of 172] by (simp add: parse_defs)

lemma parse_200: "parseNumber_v1 (str ''200'') = Some (Fin 200)"
  using to_number_int[of 200] by (simp add: parse_defs)

lemma parse_100: "parseNumber_v1 (str ''100'') = Some (Fin 100)"
  using to_number_int[of 100] by (simp add: parse_defs)

lemma nextBmi_200_100: "nextBmi_v1 (Fin 200) (Fin 100) = Fin 25"
  using to_number_int[of 2] to_number_int[of 4] to_number_int[of 25]
  by (simp add: nextBmi_v1_def Let_def)

lemma evaluate_rejected_iff: "evaluate_v1 p = Rejected \<longleftrightarrow> \<not> valid_v1 p"
  by (simp add: evaluate_v1_eq)

lemma not_valid_iff:
  "\<not> valid_v1 p \<longleftrightarrow>
     heightValue_v1 p = None \<or> weightValue_v1 p = None
     \<or> (\<exists>h. heightValue_v1 p = Some h \<and> \<not> (js_gt h (Fin 40) \<and> js_lt h (Fin 260)))
     \<or> (\<exists>w. weightValue_v1 p = Some w \<and> \<not> (js_gt w (Fin 10) \<and> js_lt w (Fin 400)))"
  by (cases "heightValue_v1 p"; cases "weightValue_v1 p") (auto simp: valid_v1_def)

lemma parse_bounds:
  "parseNumber_v1 (str ''40'') = Some (Fin 40)" "parseNumber_v1 (str ''70'') = Some (Fin 70)"
  "parseNumber_v1 (str ''260'') = Some (Fin 260)" "parseNumber_v1 (str ''170'') = Some (Fin 170)"
  "parseNumber_v1 (str ''10'') = Some (Fin 10)" "parseNumber_v1 (str ''400'') = Some (Fin 400)"
  "parseNumber_v1 (str ''30'') = Some (Fin 30)"
  using to_number_int[of 40] to_number_int[of 70] to_number_int[of 260] to_number_int[of 170]
    to_number_int[of 10] to_number_int[of 400] to_number_int[of 30]
  by (simp_all add: parse_defs)

lemma onCalculate_v1_total:
  "onCalculate_v1 p =
     (p\<lparr>bmi := None\<rparr>,
      triggerInvalidShake_v1 @
      [Assign reveal (withTiming (Fin 0) 180 None), Assign progress (withTiming (Fin 0) 180 None)])
   \<or> (\<exists>b. onCalculate_v1 p =
        (p\<lparr>bmi := Some b\<rparr>,
         [Assign reveal (withSpring (Fin 1) 14 140),
          Assign progress (withTiming (normalized_v1 b) 500 (Some out_cubic))]))"
proof (cases "valid_v1 p")
  case True
  then obtain h w where "heightValue_v1 p = Some h" "weightValue_v1 p = Some w"
    unfolding valid_v1_iff by blast
  then show ?thesis using onCalculate_v1_accepted[OF True] by blast
next
  case False
  then show ?thesis using onCalculate_v1_rejected by blast
qed

lemma onCalculate_v2_total:
  "onCalculate_v2 p =
     (p\<lparr>bmi := None\<rparr>,
      triggerInvalidShake_v2 @
      [setValue indicatorPop (Fin 0),
       start (parallel [timing reveal (Fin 0) 160 True, timing progress (Fin 0) 180 False])])
   \<or> (\<exists>b. onCalculate_v2 p =
        (p\<lparr>bmi := Some b\<rparr>,
         [start (timing reveal (Fin 1) 220 True),
          start (timing progress (normalized_v2 b) 480 False)] @
         triggerIndicatorPop_v2))"
proof (cases "valid_v1 p")
  case True
  then obtain h w where "heightValue_v1 p = Some h" "weightValue_v1 p = Some w"
    unfolding valid_v1_iff by blast
  then show ?thesis using onCalculate_v2_accepted[OF True] unfolding normalized_v2_v1 by blast
next
  case False
  then show ?thesis using onCalculate_v2_rejected by blast
qed

lemma accepted_bmi:
  assumes "valid_v1 p"
  shows "\<exists>b q. b = Fin q
     \<and> onCalculate_v1 p =
        (p\<lparr>bmi := Some b\<rparr>,
         [Assign reveal (withSpring (Fin 1) 14 140),
          Assign progress (withTiming (normalized_v1 b) 500 (Some out_cubic))])
     \<and> onCalculate_v2 p =
        (p\<lparr>bmi := Some b\<rparr>,
         [start (timing reveal (Fin 1) 220 True),
          start (timing progress (normalized_v1 b) 480 False)] @ triggerIndicatorPop_v2)"
proof -
  obtain x y where xy: "heightValue_v1 p = Some (Fin x)" "weightValue_v1 p = Some (Fin y)"
    "40 < x" "x < 260" "10 < y" "y < 400"
    using assms unfolding valid_v1_iff by blast
  obtain q where q: "nextBmi_v1 (Fin x) (Fin y) = Fin q" using nextBmi_range[OF xy(3-6)] by blast
  show ?thesis
    using onCalculate_v1_accepted[OF assms xy(1,2)] onCalculate_v2_accepted[OF assms xy(1,2)]
    unfolding q by (intro exI[of _ "Fin q"] exI[of _ q]) simp
qed

lemma valid_v1_bmi_update: "valid_v1 (p\<lparr>bmi := x\<rparr>) = valid_v1 p"
  by (simp add: valid_v1_def heightValue_v1_def weightValue_v1_def)

lemma rejected_twice_v1:
  "\<not> valid_v1 p \<Longrightarrow> onCalculate_v1 (fst (onCalculate_v1 p)) = onCalculate_v1 p"
  by (simp add: onCalculate_v1_rejected valid_v1_bmi_update)

lemma rejected_twice_v2:
  "\<not> valid_v1 p \<Longrightarrow> onCalculate_v2 (fst (onCalculate_v2 p)) = onCalculate_v2 p"
  by (simp add: onCalculate_v2_rejected valid_v1_bmi_update)

lemma shake_rejected_v1:
  "shake_v1 (triggerInvalidShake_v1 @
      [Assign reveal (withTiming (Fin 0) 180 None), Assign progress (withTiming (Fin 0) 180 None)])
   = [(- 10, 60), (10, 60), (- 8, 60), (8, 60), (0, 60)]"
  by (simp add: shake_v1_def triggerInvalidShake_v1_def)

lemma shake_rejected_v2:
  "shake_v2 (triggerInvalidShake_v2 @
      [setValue indicatorPop (Fin 0),
       start (parallel [timing reveal (Fin 0) 160 True, timing progress (Fin 0) 180 False])])
   = [(- 10, 60), (10, 60), (- 8, 60), (8, 60), (0, 60)]"
  by (simp add: shake_v2_def triggerInvalidShake_v2_def)

lemma retract_rejected_v1:
  "targets_v1 reveal (triggerInvalidShake_v1 @
      [Assign reveal (withTiming (Fin 0) 180 None), Assign progress (withTiming (Fin 0) 180 None)])
     = [Fin 0]"
  "targets_v1 progress (triggerInvalidShake_v1 @
      [Assign reveal (withTiming (Fin 0) 180 None), Assign progress (withTiming (Fin 0) 180 None)])
     = [Fin 0]"
  by (simp_all add: targets_v1_def triggerInvalidShake_v1_def)

lemma retract_rejected_v2:
  "targets_v2 reveal (triggerInvalidShake_v2 @
      [setValue indicatorPop (Fin 0),
       start (parallel [timing reveal (Fin 0) 160 True, timing progress (Fin 0) 180 False])])
     = [Fin 0]"
  "targets_v2 progress (triggerInvalidShake_v2 @
      [setValue indicatorPop (Fin 0),
       start (parallel [timing reveal (Fin 0) 160 True, timing progress (Fin 0) 180 False])])
     = [Fin 0]"
  by (simp_all add: targets_v2_def triggerInvalidShake_v2_def)

lemma shake_shape:
  "length [(- 10, 60), (10, 60), (- 8, 60), (8, 60), (0 :: rat, 60 :: nat)] = 5"
  "sum_list (map snd [(- 10, 60), (10, 60), (- 8, 60), (8, 60), (0 :: rat, 60 :: nat)]) = 300"
  "successively (\<lambda>a b. fst a * fst b \<le> 0) [(- 10, 60), (10, 60), (- 8, 60), (8, 60), (0 :: rat, 60 :: nat)]"
  "successively (\<lambda>a b. fst a * fst b < 0) [(- 10, 60), (10, 60), (- 8, 60), (8 :: rat, 60 :: nat)]"
  "sorted_wrt (\<lambda>a b. \<bar>fst b\<bar> \<le> \<bar>fst a\<bar>) [(- 10, 60), (10, 60), (- 8, 60), (8, 60), (0 :: rat, 60 :: nat)]"
  by simp_all

lemma accepted_bmi_range:
  assumes "valid_v1 p"
  shows "\<exists>q. 1 / 2 \<le> q \<and> q \<le> 6400
     \<and> onCalculate_v1 p =
        (p\<lparr>bmi := Some (Fin q)\<rparr>,
         [Assign reveal (withSpring (Fin 1) 14 140),
          Assign progress (withTiming (normalized_v1 (Fin q)) 500 (Some out_cubic))])
     \<and> onCalculate_v2 p =
        (p\<lparr>bmi := Some (Fin q)\<rparr>,
         [start (timing reveal (Fin 1) 220 True),
          start (timing progress (normalized_v1 (Fin q)) 480 False)] @ triggerIndicatorPop_v2)"
proof -
  obtain x y where xy: "heightValue_v1 p = Some (Fin x)" "weightValue_v1 p = Some (Fin y)"
    "40 < x" "x < 260" "10 < y" "y < 400"
    using assms unfolding valid_v1_iff by blast
  obtain q where q: "nextBmi_v1 (Fin x) (Fin y) = Fin q" "1 / 2 \<le> q" "q \<le> 6400"
    using nextBmi_range[OF xy(3-6)] by blast
  show ?thesis
    using onCalculate_v1_accepted[OF assms xy(1,2)] onCalculate_v2_accepted[OF assms xy(1,2)] q(2,3)
    unfolding q(1) by (intro exI[of _ q]) simp
qed

lemma bmiColor_label:
  "q \<noteq> 0 \<Longrightarrow> bmiColor_v1 (p\<lparr>bmi := Some (Fin q)\<rparr>) =
     (case label (getBmiCategory_v1 (Fin q)) of
        Underweight \<Rightarrow> 0 | Normal \<Rightarrow> 1 | Overweight \<Rightarrow> 2 | Obese \<Rightarrow> 3)"
  by (simp add: bmiColor_v1_def getBmiCategory_v1_def)

lemma accent_of_result:
  "accentHex_v2 (p\<lparr>bmi := Some r\<rparr>) = accentHex (getBmiCategory_v2 r)"
  by (simp add: accentHex_v2_def category_v2_def)

lemma category_fields:
  "label (getBmiCategory_v1 b) = label (getBmiCategory_v2 b)"
  "rangeLabel (getBmiCategory_v1 b) = rangeLabel (getBmiCategory_v2 b)"
  "hint (getBmiCategory_v1 b) = hint (getBmiCategory_v2 b)"
  by (simp_all add: getBmiCategory_v1_def getBmiCategory_v2_def)

lemma colorClass_differs: "colorClass (getBmiCategory_v1 b) \<noteq> colorClass (getBmiCategory_v2 b)"
  by (simp add: getBmiCategory_v1_def getBmiCategory_v2_def str_def)

lemma round1_v2_v1: "round1_v2 big n = round1_v1 big n"
  by (simp add: round1_v1_def round1_v2_def)

lemma onCalculate_state_v2_v1: "fst (onCalculate_v2 p) = fst (onCalculate_v1 p)"
  by (simp add: onCalculate_v1_def onCalculate_v2_def Let_def valid_v2_v1 heightValue_v2_v1
      weightValue_v2_v1 nextBmi_v2_v1)

lemma onCalculate_targets_v2_v1:
  "targets_v2 progress (snd (onCalculate_v2 p)) = targets_v1 progress (snd (onCalculate_v1 p))"
  "targets_v2 reveal (snd (onCalculate_v2 p)) = targets_v1 reveal (snd (onCalculate_v1 p))"
  by (simp_all add: onCalculate_v1_def onCalculate_v2_def Let_def valid_v2_v1 heightValue_v2_v1
      weightValue_v2_v1 nextBmi_v2_v1 normalized_v2_v1 targets_v1_def targets_v2_def
      triggerInvalidShake_v1_def triggerInvalidShake_v2_def triggerIndicatorPop_v2_def)

lemma onReset_v2_v1:
  "fst (onReset_v2 p) = fst (onReset_v1 p)"
  "targets_v2 progress (snd (onReset_v2 p)) = targets_v1 progress (snd (onReset_v1 p))"
  "targets_v2 reveal (snd (onReset_v2 p)) = targets_v1 reveal (snd (onReset_v1 p))"
  by (simp_all add: onReset_v1_def onReset_v2_def targets_v1_def targets_v2_def)

lemma step_state_v2_v1: "fst (step_v2 e p) = fst (step_v1 e p)"
  by (cases e) (simp_all add: onCalculate_state_v2_v1 onReset_v2_v1)

lemma displays_texts:
  "displays d (p\<lparr>heightCm := s\<rparr>) = displays d p"
  "displays d (p\<lparr>weightKg := s\<rparr>) = displays d p"
  "displays d (p\<lparr>barWidth := w\<rparr>) = displays d p"
  by (cases d; simp)+

lemma step_displays_v1: "displays d p \<Longrightarrow> displays (spec_step_v1 e p d) (fst (step_v1 e p))"
proof (cases e)
  case Calculate
  then show ?thesis
    by (cases "bmi (fst (onCalculate_v1 p))") (simp_all add: evaluate_v1_def)
next
  case Reset
  then show ?thesis by (simp add: spec_onReset_def onReset_v1_def)
qed (simp_all add: displays_texts)

lemma run_displays_v1:
  "displays (snd s) (fst s) \<Longrightarrow> displays (snd (run_v1 es s)) (fst (run_v1 es s))"
  by (induction es arbitrary: s) (simp_all add: step_displays_v1)

lemma run_v2_v1: "run_v2 es s = run_v1 es s"
proof (induction es arbitrary: s)
  case Nil
  then show ?case by simp
next
  case (Cons e es)
  have "spec_step_v2 e (fst s) (snd s) = spec_step_v1 e (fst s) (snd s)"
    by (cases e) (simp_all add: evaluate_v2_v1)
  then show ?case using Cons by (simp add: step_state_v2_v1)
qed

lemma displays_init: "displays Idle Page_init"
  by (simp add: Page_init_def)

lemma calculate_rejected_spec:
  "\<not> valid_v1 p \<Longrightarrow> spec_step_v1 Calculate p d = Invalid"
  by (simp add: evaluate_v1_eq)

lemma calculate_accepted_spec:
  "valid_v1 p \<Longrightarrow>
   spec_step_v1 Calculate p d = Result (nextBmi_v1 (the (heightValue_v1 p)) (the (weightValue_v1 p)))"
  by (simp add: evaluate_v1_eq)

lemma accepted_targets:
  assumes "valid_v1 p"
  shows "\<exists>r. spec_step_v1 Calculate p d = Result r
     \<and> displays (Result r) (fst (onCalculate_v1 p))
     \<and> targets_v1 reveal (snd (onCalculate_v1 p)) = [Fin 1]
     \<and> targets_v1 progress (snd (onCalculate_v1 p)) = [normalized_v1 r]
     \<and> targets_v2 indicatorPop (snd (onCalculate_v2 p)) = [Fin 1, Fin 0]"
proof -
  obtain h w where hw: "heightValue_v1 p = Some h" "weightValue_v1 p = Some w"
    using assms unfolding valid_v1_iff by blast
  show ?thesis
    unfolding onCalculate_v1_accepted[OF assms hw] onCalculate_v2_accepted[OF assms hw]
      calculate_accepted_spec[OF assms] hw
    by (intro exI[of _ "nextBmi_v1 h w"])
      (simp add: targets_v1_def targets_v2_def triggerIndicatorPop_v2_def)
qed

lemma reset_facts:
  "spec_step_v1 Reset p d = Idle" "displays Idle (fst (onReset_v1 p))"
  "heightCm (fst (onReset_v1 p)) = []" "weightKg (fst (onReset_v1 p)) = []"
  "targets_v1 reveal (snd (onReset_v1 p)) = [Fin 0]"
  "targets_v1 progress (snd (onReset_v1 p)) = [Fin 0]"
  "targets_v2 reveal (snd (onReset_v2 p)) = [Fin 0]"
  "targets_v2 progress (snd (onReset_v2 p)) = [Fin 0]"
  by (simp_all add: spec_onReset_def onReset_v1_def onReset_v2_def targets_v1_def targets_v2_def)

lemma reach_invalid: "snd (run_v1 [setHeightCm [], Calculate] (p, d)) = Invalid"
proof -
  have "\<not> valid_v1 (p\<lparr>heightCm := []\<rparr>)"
    using parse_blank(1) by (simp add: valid_v1_def heightValue_v1_def str_def)
  then show ?thesis by (simp add: evaluate_v1_eq)
qed

lemma reach_result:
  "\<exists>r. snd (run_v1 [setHeightCm (str ''172''), setWeightKg (str ''68''), Calculate] (p, d)) = Result r"
proof -
  have "valid_v1 (p\<lparr>heightCm := str ''172'', weightKg := str ''68''\<rparr>)"
    by (simp add: valid_v1_def heightValue_v1_def weightValue_v1_def parse_172 parse_68 js_gt_def)
  then show ?thesis by (simp add: evaluate_v1_eq)
qed


section \<open>Parsing\<close>

text \<open>
  C5. \<^verbatim>\<open>parseNumber\<close> of either screen is a function of the text alone. Empty or white-space
  text gives \<^verbatim>\<open>null\<close>; text that is not a numeric literal once normalized gives \<^verbatim>\<open>null\<close>;
  text whose number is not finite gives \<^verbatim>\<open>null\<close>; every other text gives the number read
  from the normalized text. A comma standing for the decimal point reads as the point does,
  and white space around the text changes nothing. In particular the empty text and two
  blanks give \<^verbatim>\<open>null\<close>, \<^verbatim>\<open>68\<close> gives 68, \<^verbatim>\<open>68,5\<close> gives 68.5, \<^verbatim>\<open>abc\<close> gives \<^verbatim>\<open>null\<close>, and
  \<^verbatim>\<open>1e400\<close>, which overflows to infinity, gives \<^verbatim>\<open>null\<close>.
\<close>

theorem parseNumber_contract:
  "(list_all StrWhiteSpaceChar s \<longrightarrow> parseNumber_v1 s = None \<and> parseNumber_v2 s = None)
   \<and> (StrNumericLiteral (trim (replace 0x2C (str ''.'') s)) = None \<longrightarrow>
        parseNumber_v1 s = None \<and> parseNumber_v2 s = None)
   \<and> (\<not> Number_isFinite (Number (trim (replace 0x2C (str ''.'') s))) \<longrightarrow>
        parseNumber_v1 s = None \<and> parseNumber_v2 s = None)
   \<and> (trim (replace 0x2C (str ''.'') s) \<noteq> []
        \<and> Number_isFinite (Number (trim (replace 0x2C (str ''.'') s))) \<longrightarrow>
        parseNumber_v1 s = Some (Number (trim (replace 0x2C (str ''.'') s)))
        \<and> parseNumber_v2 s = Some (Number (trim (replace 0x2C (str ''.'') s))))
   \<and> (0x2C \<notin> set xs \<and> 0x2C \<notin> set ys \<longrightarrow>
        parseNumber_v1 (xs @ 0x2C # ys) = parseNumber_v1 (xs @ 0x2E # ys)
        \<and> parseNumber_v2 (xs @ 0x2C # ys) = parseNumber_v2 (xs @ 0x2E # ys))
   \<and> (list_all StrWhiteSpaceChar a \<and> list_all StrWhiteSpaceChar b \<longrightarrow>
        parseNumber_v1 (a @ s @ b) = parseNumber_v1 s
        \<and> parseNumber_v2 (a @ s @ b) = parseNumber_v2 s)
   \<and> parseNumber_v1 (str '''') = None \<and> parseNumber_v2 (str '''') = None
   \<and> parseNumber_v1 (str ''  '') = None \<and> parseNumber_v2 (str ''  '') = None
   \<and> parseNumber_v1 (str ''68'') = Some (Fin 68) \<and> parseNumber_v2 (str ''68'') = Some (Fin 68)
   \<and> parseNumber_v1 (str ''68,5'') = Some (Fin (685 / 10))
   \<and> parseNumber_v2 (str ''68,5'') = Some (Fin (685 / 10))
   \<and> parseNumber_v1 (str ''abc'') = None \<and> parseNumber_v2 (str ''abc'') = None
   \<and> Number (str ''1e400'') = PosInf
   \<and> parseNumber_v1 (str ''1e400'') = None \<and> parseNumber_v2 (str ''1e400'') = None"
proof -
  have 1: "list_all StrWhiteSpaceChar s \<longrightarrow> parseNumber_v1 s = None"
    by (simp add: parseNumber_ws)
  have 2: "StrNumericLiteral (trim (replace 0x2C (str ''.'') s)) = None \<longrightarrow> parseNumber_v1 s = None"
    by (simp add: parseNumber_v1_eq)
  have 3: "\<not> Number_isFinite (Number (trim (replace 0x2C (str ''.'') s))) \<longrightarrow> parseNumber_v1 s = None"
    by (simp add: parseNumber_v1_def Let_def)
  have 4: "trim (replace 0x2C (str ''.'') s) \<noteq> []
        \<and> Number_isFinite (Number (trim (replace 0x2C (str ''.'') s))) \<longrightarrow>
        parseNumber_v1 s = Some (Number (trim (replace 0x2C (str ''.'') s)))"
    by (simp add: parseNumber_v1_def Let_def)
  have 5: "0x2C \<notin> set xs \<and> 0x2C \<notin> set ys \<longrightarrow>
        parseNumber_v1 (xs @ 0x2C # ys) = parseNumber_v1 (xs @ 0x2E # ys)"
    by (simp add: parseNumber_comma)
  have 6: "list_all StrWhiteSpaceChar a \<and> list_all StrWhiteSpaceChar b \<longrightarrow>
        parseNumber_v1 (a @ s @ b) = parseNumber_v1 s"
    by (simp add: parseNumber_pad)
  show ?thesis
    unfolding parseNumber_v2_v1
    using 1 2 3 4 5 6 parse_blank parse_68 parse_68_5 parse_abc Number_1e400 parse_1e400
    by blast
qed

theorem parseNumber_contract_witness:
  "list_all StrWhiteSpaceChar (str ''  '') \<and> parseNumber_v1 (str ''  '') = None
   \<and> StrNumericLiteral (trim (replace 0x2C (str ''.'') (str ''abc''))) = None
   \<and> parseNumber_v2 (str ''abc'') = None
   \<and> \<not> Number_isFinite (Number (trim (replace 0x2C (str ''.'') (str ''1e400''))))
   \<and> parseNumber_v1 (str ''1e400'') = None
   \<and> trim (replace 0x2C (str ''.'') (str '' 68,5 '')) = str ''68.5''
   \<and> Number (str ''68.5'') = Fin (685 / 10)
   \<and> parseNumber_v1 (str '' 68,5 '') = Some (Fin (685 / 10))
   \<and> 0x2C \<notin> set (str ''68'') \<and> 0x2C \<notin> set (str ''5'')
   \<and> parseNumber_v1 (str ''68'' @ 0x2C # str ''5'') = parseNumber_v1 (str ''68'' @ 0x2E # str ''5'')
   \<and> list_all StrWhiteSpaceChar (str '' '')
   \<and> parseNumber_v2 (str '' '' @ str ''68'' @ str '' '') = parseNumber_v2 (str ''68'')"
proof -
  have n: "Number (str ''68.5'') = Fin (685 / 10)"
    using to_number_dyadic[of 137 1] by (simp add: parse_defs)
  have t: "trim (replace 0x2C (str ''.'') (str '' 68,5 '')) = str ''68.5''"
    by (simp add: parse_defs)
  have a: "StrNumericLiteral (trim (replace 0x2C (str ''.'') (str ''abc''))) = None"
    by (simp add: parse_defs)
  have i: "\<not> Number_isFinite (Number (trim (replace 0x2C (str ''.'') (str ''1e400''))))"
    using to_number_overflow[of "10 ^ 400"] by (simp add: parse_defs)
  have w: "list_all StrWhiteSpaceChar (str ''  '')" "list_all StrWhiteSpaceChar (str '' '')"
    by (simp_all add: parse_defs)
  have c: "0x2C \<notin> set (str ''68'')" "0x2C \<notin> set (str ''5'')"
    by (simp_all add: str_def)
  have ne: "str ''68.5'' \<noteq> []" by (simp add: str_def)
  have 1: "parseNumber_v1 (str ''  '') = None"
    using parseNumber_contract [where s = "str ''  ''"] w by blast
  have 2: "parseNumber_v2 (str ''abc'') = None"
    using parseNumber_contract [where s = "str ''abc''"] a by blast
  have 3: "parseNumber_v1 (str ''1e400'') = None"
    using parseNumber_contract [where s = "str ''1e400''"] i by blast
  have 4: "parseNumber_v1 (str '' 68,5 '') = Some (Fin (685 / 10))"
    using parseNumber_contract [where s = "str '' 68,5 ''"] n ne unfolding t by simp
  have 5: "parseNumber_v1 (str ''68'' @ 0x2C # str ''5'') = parseNumber_v1 (str ''68'' @ 0x2E # str ''5'')"
    using parseNumber_contract [where xs = "str ''68''" and ys = "str ''5''"] c by blast
  have 6: "parseNumber_v2 (str '' '' @ str ''68'' @ str '' '') = parseNumber_v2 (str ''68'')"
    using parseNumber_contract [where s = "str ''68''" and a = "str '' ''" and b = "str '' ''"] w
    by blast
  show ?thesis using 1 2 3 4 5 6 n t a i w c by blast
qed


text \<open>
  C10. Only the first comma of the text is replaced. A text with one comma reads as the same
  text with a point in its place, so \<^verbatim>\<open>1,234\<close> is the number 1.234 (the binary64 value
  nearest to it), not 1234. A text with two commas or more gives \<^verbatim>\<open>null\<close>: a comma is left
  in the normalized text, as in \<^verbatim>\<open>1,2,3\<close>, normalized to \<^verbatim>\<open>1.2,3\<close>.
\<close>

theorem parseNumber_first_comma_only:
  "(0x2C \<notin> set xs \<longrightarrow> replace 0x2C (str ''.'') (xs @ 0x2C # ys) = xs @ 0x2E # ys)
   \<and> (0x2C \<notin> set xs \<and> 0x2C \<notin> set ys \<longrightarrow>
        parseNumber_v1 (xs @ 0x2C # ys) = parseNumber_v1 (xs @ 0x2E # ys)
        \<and> parseNumber_v2 (xs @ 0x2C # ys) = parseNumber_v2 (xs @ 0x2E # ys))
   \<and> parseNumber_v1 (str ''1,234'') = Some (to_number (1234 / 1000))
   \<and> parseNumber_v2 (str ''1,234'') = Some (to_number (1234 / 1000))
   \<and> to_number (1234 / 1000) = Fin (5557441940175192 / 2 ^ 52)
   \<and> to_number (1234 / 1000) \<noteq> Fin 1234
   \<and> (2 \<le> count_list s 0x2C \<longrightarrow> parseNumber_v1 s = None \<and> parseNumber_v2 s = None)
   \<and> replace 0x2C (str ''.'') (str ''1,2,3'') = str ''1.2,3''
   \<and> parseNumber_v1 (str ''1,2,3'') = None \<and> parseNumber_v2 (str ''1,2,3'') = None"
proof -
  have 1: "0x2C \<notin> set xs \<longrightarrow> replace 0x2C (str ''.'') (xs @ 0x2C # ys) = xs @ 0x2E # ys"
    by (simp add: replace_first str_def)
  have 2: "0x2C \<notin> set xs \<and> 0x2C \<notin> set ys \<longrightarrow>
        parseNumber_v1 (xs @ 0x2C # ys) = parseNumber_v1 (xs @ 0x2E # ys)"
    by (simp add: parseNumber_comma)
  have 3: "to_number (1234 / 1000) = Fin (5557441940175192 / 2 ^ 52)"
    using to_number_1234 by simp
  have 4: "to_number (1234 / 1000) \<noteq> Fin 1234"
    using to_number_1234 by simp
  have 5: "2 \<le> count_list s 0x2C \<longrightarrow> parseNumber_v1 s = None"
    by (simp add: parseNumber_two_commas)
  have 6: "replace 0x2C (str ''.'') (str ''1,2,3'') = str ''1.2,3''"
    by (simp add: str_def)
  show ?thesis
    unfolding parseNumber_v2_v1
    using 1 2 3 4 5 6 parse_1_234 parse_1_2_3 by blast
qed

theorem parseNumber_first_comma_only_witness:
  "0x2C \<notin> set (str ''1'') \<and> 0x2C \<notin> set (str ''234'')
   \<and> replace 0x2C (str ''.'') (str ''1'' @ 0x2C # str ''234'') = str ''1'' @ 0x2E # str ''234''
   \<and> parseNumber_v1 (str ''1'' @ 0x2C # str ''234'') = parseNumber_v1 (str ''1'' @ 0x2E # str ''234'')
   \<and> 2 \<le> count_list (str ''3,,5'') 0x2C
   \<and> parseNumber_v1 (str ''3,,5'') = None \<and> parseNumber_v2 (str ''3,,5'') = None"
proof -
  have c: "0x2C \<notin> set (str ''1'')" "0x2C \<notin> set (str ''234'')" "2 \<le> count_list (str ''3,,5'') 0x2C"
    by (simp_all add: str_def)
  show ?thesis
    using parseNumber_first_comma_only [where xs = "str ''1''" and ys = "str ''234''" and s = "str ''3,,5''"] c
    by blast
qed

section \<open>Classification\<close>

text \<open>
  C3. On both screens the category of a BMI follows half-open intervals with inclusive
  lower bounds: below 18.5 Underweight, from 18.5 and below 25 Normal, from 25 and below
  30 Overweight, from 30 on Obese; so 18.5 is Normal, 25 is Overweight and 30 is Obese.
  The comparisons are those of the language, on every number (infinities included).
\<close>

theorem getBmiCategory_intervals:
  "(js_lt b (Fin (185 / 10)) \<longrightarrow>
      label (getBmiCategory_v1 b) = Underweight \<and> label (getBmiCategory_v2 b) = Underweight)
   \<and> (js_le (Fin (185 / 10)) b \<and> js_lt b (Fin 25) \<longrightarrow>
      label (getBmiCategory_v1 b) = Normal \<and> label (getBmiCategory_v2 b) = Normal)
   \<and> (js_le (Fin 25) b \<and> js_lt b (Fin 30) \<longrightarrow>
      label (getBmiCategory_v1 b) = Overweight \<and> label (getBmiCategory_v2 b) = Overweight)
   \<and> (js_ge b (Fin 30) \<longrightarrow>
      label (getBmiCategory_v1 b) = Obese \<and> label (getBmiCategory_v2 b) = Obese)
   \<and> label (getBmiCategory_v1 (Fin (185 / 10))) = Normal
   \<and> label (getBmiCategory_v2 (Fin (185 / 10))) = Normal
   \<and> label (getBmiCategory_v1 (Fin 25)) = Overweight
   \<and> label (getBmiCategory_v2 (Fin 25)) = Overweight
   \<and> label (getBmiCategory_v1 (Fin 30)) = Obese
   \<and> label (getBmiCategory_v2 (Fin 30)) = Obese"
  by (cases b) (simp_all add: getBmiCategory_v1_def getBmiCategory_v2_def js_le_def js_ge_def)

theorem getBmiCategory_intervals_witness:
  "js_lt (Fin 17) (Fin (185 / 10)) \<and> label (getBmiCategory_v1 (Fin 17)) = Underweight
   \<and> label (getBmiCategory_v2 (Fin 17)) = Underweight
   \<and> js_le (Fin (185 / 10)) (Fin 22) \<and> js_lt (Fin 22) (Fin 25)
   \<and> label (getBmiCategory_v1 (Fin 22)) = Normal \<and> label (getBmiCategory_v2 (Fin 22)) = Normal
   \<and> js_le (Fin 25) (Fin 27) \<and> js_lt (Fin 27) (Fin 30)
   \<and> label (getBmiCategory_v1 (Fin 27)) = Overweight \<and> label (getBmiCategory_v2 (Fin 27)) = Overweight
   \<and> js_ge PosInf (Fin 30)
   \<and> label (getBmiCategory_v1 PosInf) = Obese \<and> label (getBmiCategory_v2 PosInf) = Obese"
  using getBmiCategory_intervals [of "Fin 17"] getBmiCategory_intervals [of "Fin 22"]
    getBmiCategory_intervals [of "Fin 27"] getBmiCategory_intervals [of PosInf]
  by (simp add: js_le_def js_ge_def)

section \<open>Calculation\<close>

text \<open>
  C1. On both screens, when both parsed values are present, the height lies strictly between
  40 and 260 and the weight strictly between 10 and 400, \<^verbatim>\<open>onCalculate\<close> accepts and stores
  the weight divided by the square of the height over 100, each operation being that of the
  language on binary64 numbers; the stored number is finite. It is stored as computed: for
  the texts 172 and 68 the stored number lies below 23, while \<^verbatim>\<open>round1\<close> displays it as 23.0.
\<close>

theorem onCalculate_stores_formula:
  "(heightValue_v1 p = Some h \<and> weightValue_v1 p = Some w
      \<and> js_gt h (Fin 40) \<and> js_lt h (Fin 260) \<and> js_gt w (Fin 10) \<and> js_lt w (Fin 400) \<longrightarrow>
      evaluate_v1 p = Accepted (js_div w (square (js_div h (Fin 100))))
      \<and> bmi (fst (onCalculate_v1 p)) = Some (js_div w (square (js_div h (Fin 100))))
      \<and> (\<exists>q. js_div w (square (js_div h (Fin 100))) = Fin q \<and> 1 / 2 \<le> q \<and> q \<le> 6400))
   \<and> (heightValue_v2 p = Some h \<and> weightValue_v2 p = Some w
      \<and> js_gt h (Fin 40) \<and> js_lt h (Fin 260) \<and> js_gt w (Fin 10) \<and> js_lt w (Fin 400) \<longrightarrow>
      evaluate_v2 p = Accepted (js_div w (square (js_div h (Fin 100))))
      \<and> bmi (fst (onCalculate_v2 p)) = Some (js_div w (square (js_div h (Fin 100)))))
   \<and> (\<exists>q. evaluate_v1 \<lparr>heightCm = str ''172'', weightKg = str ''68'', bmi = None, barWidth = Fin 0\<rparr>
          = Accepted (Fin q)
        \<and> 735 / 32 \<le> q \<and> q \<le> 23551 / 1024 \<and> round1_v1 big (Fin q) = str ''23.0'')"
proof -
  have main: "evaluate_v1 p = Accepted (js_div w (square (js_div h (Fin 100))))
      \<and> bmi (fst (onCalculate_v1 p)) = Some (js_div w (square (js_div h (Fin 100))))
      \<and> bmi (fst (onCalculate_v2 p)) = Some (js_div w (square (js_div h (Fin 100))))
      \<and> (\<exists>q. js_div w (square (js_div h (Fin 100))) = Fin q \<and> 1 / 2 \<le> q \<and> q \<le> 6400)"
    if hw: "heightValue_v1 p = Some h" "weightValue_v1 p = Some w"
      and r: "js_gt h (Fin 40)" "js_lt h (Fin 260)" "js_gt w (Fin 10)" "js_lt w (Fin 400)"
  proof -
    have v: "valid_v1 p" using hw r by (rule bounds_valid)
    obtain a b where ab: "h = Fin a" "w = Fin b" "40 < a" "a < 260" "10 < b" "b < 400"
      using v hw unfolding valid_v1_iff by auto
    have e: "evaluate_v1 p = Accepted (nextBmi_v1 h w)" using v hw by (simp add: evaluate_v1_eq)
    have 1: "bmi (fst (onCalculate_v1 p)) = Some (nextBmi_v1 h w)"
      using onCalculate_v1_accepted[OF v hw] by simp
    have 2: "bmi (fst (onCalculate_v2 p)) = Some (nextBmi_v1 h w)"
      using onCalculate_v2_accepted[OF v hw] by simp
    have 3: "\<exists>q. nextBmi_v1 h w = Fin q \<and> 1 / 2 \<le> q \<and> q \<le> 6400"
      unfolding ab(1,2) using ab(3-6) by (rule nextBmi_range)
    show ?thesis using e 1 2 3 unfolding nextBmi_square by blast
  qed
  have ex: "\<exists>q. evaluate_v1 \<lparr>heightCm = str ''172'', weightKg = str ''68'', bmi = None, barWidth = Fin 0\<rparr>
          = Accepted (Fin q)
        \<and> 735 / 32 \<le> q \<and> q \<le> 23551 / 1024 \<and> round1_v1 big (Fin q) = str ''23.0''"
  proof -
    obtain q where q: "nextBmi_v1 (Fin 172) (Fin 68) = Fin q" "735 / 32 \<le> q" "q \<le> 23551 / 1024"
      using nextBmi_172_68 by blast
    have "evaluate_v1 \<lparr>heightCm = str ''172'', weightKg = str ''68'', bmi = None, barWidth = Fin 0\<rparr>
        = Accepted (Fin q)"
      by (simp add: evaluate_v1_eq valid_v1_def heightValue_v1_def weightValue_v1_def
          parse_172 parse_68 js_gt_def q(1))
    then show ?thesis using q(2,3) round1_23[OF q(2,3)] by blast
  qed
  show ?thesis
    using main ex unfolding heightValue_v2_v1 weightValue_v2_v1 evaluate_v2_v1 by blast
qed



theorem onCalculate_stores_formula_witness:
  "heightValue_v1 \<lparr>heightCm = str ''200'', weightKg = str ''100'', bmi = None, barWidth = Fin 0\<rparr>
     = Some (Fin 200)
   \<and> weightValue_v1 \<lparr>heightCm = str ''200'', weightKg = str ''100'', bmi = None, barWidth = Fin 0\<rparr>
     = Some (Fin 100)
   \<and> js_gt (Fin 200) (Fin 40) \<and> js_lt (Fin 200) (Fin 260)
   \<and> js_gt (Fin 100) (Fin 10) \<and> js_lt (Fin 100) (Fin 400)
   \<and> js_div (Fin 100) (square (js_div (Fin 200) (Fin 100))) = Fin 25
   \<and> evaluate_v1 \<lparr>heightCm = str ''200'', weightKg = str ''100'', bmi = None, barWidth = Fin 0\<rparr>
     = Accepted (Fin 25)
   \<and> bmi (fst (onCalculate_v2
        \<lparr>heightCm = str ''200'', weightKg = str ''100'', bmi = None, barWidth = Fin 0\<rparr>))
     = Some (Fin 25)"
proof -
  define p where "p = \<lparr>heightCm = str ''200'', weightKg = str ''100'', bmi = None, barWidth = Fin 0\<rparr>"
  have h: "heightValue_v1 p = Some (Fin 200)" "heightValue_v2 p = Some (Fin 200)"
    by (simp_all add: p_def heightValue_v2_v1 heightValue_v1_def parse_200)
  have w: "weightValue_v1 p = Some (Fin 100)" "weightValue_v2 p = Some (Fin 100)"
    by (simp_all add: p_def weightValue_v2_v1 weightValue_v1_def parse_100)
  have r: "js_gt (Fin 200) (Fin 40)" "js_lt (Fin 200) (Fin 260)"
    "js_gt (Fin 100) (Fin 10)" "js_lt (Fin 100) (Fin 400)"
    by (simp_all add: js_gt_def)
  have v: "js_div (Fin 100) (square (js_div (Fin 200) (Fin 100))) = Fin 25"
    using nextBmi_200_100 by (simp only: nextBmi_square)
  have "evaluate_v1 p = Accepted (Fin 25) \<and> bmi (fst (onCalculate_v2 p)) = Some (Fin 25)"
    using onCalculate_stores_formula [where p = p and h = "Fin 200" and w = "Fin 100"] h w r
    unfolding v by blast
  then show ?thesis using h w r v unfolding p_def by blast
qed


text \<open>
  C2. On both screens \<^verbatim>\<open>onCalculate\<close> rejects exactly when a parsed value is absent, or the
  height is not strictly between 40 and 260, or the weight is not strictly between 10 and
  400. The bounds themselves are rejected: the texts 40 and 70, 260 and 70, 170 and 10, 170
  and 400. The handler has no other exit: in every state it ends either in the rejecting
  branch or in the accepting one.
\<close>

theorem onCalculate_rejects_iff:
  "(evaluate_v1 p = Rejected \<longleftrightarrow>
      heightValue_v1 p = None \<or> weightValue_v1 p = None
      \<or> (\<exists>h. heightValue_v1 p = Some h \<and> \<not> (js_gt h (Fin 40) \<and> js_lt h (Fin 260)))
      \<or> (\<exists>w. weightValue_v1 p = Some w \<and> \<not> (js_gt w (Fin 10) \<and> js_lt w (Fin 400))))
   \<and> (evaluate_v2 p = Rejected \<longleftrightarrow>
      heightValue_v2 p = None \<or> weightValue_v2 p = None
      \<or> (\<exists>h. heightValue_v2 p = Some h \<and> \<not> (js_gt h (Fin 40) \<and> js_lt h (Fin 260)))
      \<or> (\<exists>w. weightValue_v2 p = Some w \<and> \<not> (js_gt w (Fin 10) \<and> js_lt w (Fin 400))))
   \<and> evaluate_v1 \<lparr>heightCm = str ''40'', weightKg = str ''70'', bmi = b, barWidth = bw\<rparr> = Rejected
   \<and> evaluate_v2 \<lparr>heightCm = str ''40'', weightKg = str ''70'', bmi = b, barWidth = bw\<rparr> = Rejected
   \<and> evaluate_v1 \<lparr>heightCm = str ''260'', weightKg = str ''70'', bmi = b, barWidth = bw\<rparr> = Rejected
   \<and> evaluate_v2 \<lparr>heightCm = str ''260'', weightKg = str ''70'', bmi = b, barWidth = bw\<rparr> = Rejected
   \<and> evaluate_v1 \<lparr>heightCm = str ''170'', weightKg = str ''10'', bmi = b, barWidth = bw\<rparr> = Rejected
   \<and> evaluate_v2 \<lparr>heightCm = str ''170'', weightKg = str ''10'', bmi = b, barWidth = bw\<rparr> = Rejected
   \<and> evaluate_v1 \<lparr>heightCm = str ''170'', weightKg = str ''400'', bmi = b, barWidth = bw\<rparr> = Rejected
   \<and> evaluate_v2 \<lparr>heightCm = str ''170'', weightKg = str ''400'', bmi = b, barWidth = bw\<rparr> = Rejected
   \<and> (onCalculate_v1 p =
        (p\<lparr>bmi := None\<rparr>,
         triggerInvalidShake_v1 @
         [Assign reveal (withTiming (Fin 0) 180 None), Assign progress (withTiming (Fin 0) 180 None)])
      \<or> (\<exists>r. onCalculate_v1 p =
           (p\<lparr>bmi := Some r\<rparr>,
            [Assign reveal (withSpring (Fin 1) 14 140),
             Assign progress (withTiming (normalized_v1 r) 500 (Some out_cubic))])))
   \<and> (onCalculate_v2 p =
        (p\<lparr>bmi := None\<rparr>,
         triggerInvalidShake_v2 @
         [setValue indicatorPop (Fin 0),
          start (parallel [timing reveal (Fin 0) 160 True, timing progress (Fin 0) 180 False])])
      \<or> (\<exists>r. onCalculate_v2 p =
           (p\<lparr>bmi := Some r\<rparr>,
            [start (timing reveal (Fin 1) 220 True),
             start (timing progress (normalized_v2 r) 480 False)] @
            triggerIndicatorPop_v2)))"
proof -
  have b: "evaluate_v1 \<lparr>heightCm = str ''40'', weightKg = str ''70'', bmi = b, barWidth = bw\<rparr> = Rejected"
    "evaluate_v1 \<lparr>heightCm = str ''260'', weightKg = str ''70'', bmi = b, barWidth = bw\<rparr> = Rejected"
    "evaluate_v1 \<lparr>heightCm = str ''170'', weightKg = str ''10'', bmi = b, barWidth = bw\<rparr> = Rejected"
    "evaluate_v1 \<lparr>heightCm = str ''170'', weightKg = str ''400'', bmi = b, barWidth = bw\<rparr> = Rejected"
    by (simp_all add: evaluate_rejected_iff valid_v1_def heightValue_v1_def weightValue_v1_def
        parse_bounds js_gt_def)
  have i: "evaluate_v1 p = Rejected \<longleftrightarrow>
      heightValue_v1 p = None \<or> weightValue_v1 p = None
      \<or> (\<exists>h. heightValue_v1 p = Some h \<and> \<not> (js_gt h (Fin 40) \<and> js_lt h (Fin 260)))
      \<or> (\<exists>w. weightValue_v1 p = Some w \<and> \<not> (js_gt w (Fin 10) \<and> js_lt w (Fin 400)))"
    unfolding evaluate_rejected_iff by (rule not_valid_iff)
  show ?thesis
    unfolding evaluate_v2_v1 heightValue_v2_v1 weightValue_v2_v1
    using i b onCalculate_v1_total[of p] onCalculate_v2_total[of p] by blast
qed

theorem onCalculate_rejects_iff_witness:
  "heightValue_v1 \<lparr>heightCm = str ''30'', weightKg = str ''70'', bmi = None, barWidth = Fin 0\<rparr>
     = Some (Fin 30)
   \<and> \<not> (js_gt (Fin 30) (Fin 40) \<and> js_lt (Fin 30) (Fin 260))
   \<and> evaluate_v1 \<lparr>heightCm = str ''30'', weightKg = str ''70'', bmi = None, barWidth = Fin 0\<rparr>
     = Rejected
   \<and> weightValue_v2 \<lparr>heightCm = str ''170'', weightKg = str '''', bmi = None, barWidth = Fin 0\<rparr>
     = None
   \<and> evaluate_v2 \<lparr>heightCm = str ''170'', weightKg = str '''', bmi = None, barWidth = Fin 0\<rparr>
     = Rejected
   \<and> evaluate_v1 \<lparr>heightCm = str ''200'', weightKg = str ''100'', bmi = None, barWidth = Fin 0\<rparr>
     = Accepted (Fin 25)
   \<and> heightValue_v1 \<lparr>heightCm = str ''200'', weightKg = str ''100'', bmi = None, barWidth = Fin 0\<rparr>
     = Some (Fin 200)
   \<and> weightValue_v1 \<lparr>heightCm = str ''200'', weightKg = str ''100'', bmi = None, barWidth = Fin 0\<rparr>
     = Some (Fin 100)
   \<and> js_gt (Fin 200) (Fin 40) \<and> js_lt (Fin 200) (Fin 260)
   \<and> js_gt (Fin 100) (Fin 10) \<and> js_lt (Fin 100) (Fin 400)"
proof -
  define p1 where "p1 = \<lparr>heightCm = str ''30'', weightKg = str ''70'', bmi = None, barWidth = Fin 0\<rparr>"
  define p2 where "p2 = \<lparr>heightCm = str ''170'', weightKg = str '''', bmi = None, barWidth = Fin 0\<rparr>"
  define p3 where "p3 = \<lparr>heightCm = str ''200'', weightKg = str ''100'', bmi = None, barWidth = Fin 0\<rparr>"
  have h1: "heightValue_v1 p1 = Some (Fin 30)"
    by (simp add: p1_def heightValue_v1_def parse_bounds)
  have n1: "\<not> (js_gt (Fin 30) (Fin 40) \<and> js_lt (Fin 30) (Fin 260))" by (simp add: js_gt_def)
  have e1: "evaluate_v1 p1 = Rejected"
    using onCalculate_rejects_iff [where p = p1] h1 n1 by blast
  have w2: "weightValue_v2 p2 = None"
    by (simp add: p2_def weightValue_v2_v1 weightValue_v1_def parse_blank)
  have e2: "evaluate_v2 p2 = Rejected"
    using onCalculate_rejects_iff [where p = p2] w2 by blast
  have h3: "heightValue_v1 p3 = Some (Fin 200)" "weightValue_v1 p3 = Some (Fin 100)"
    by (simp_all add: p3_def heightValue_v1_def weightValue_v1_def parse_200 parse_100)
  have r3: "js_gt (Fin 200) (Fin 40)" "js_lt (Fin 200) (Fin 260)"
    "js_gt (Fin 100) (Fin 10)" "js_lt (Fin 100) (Fin 400)"
    by (simp_all add: js_gt_def)
  have "evaluate_v1 p3 \<noteq> Rejected"
    using onCalculate_rejects_iff [where p = p3] h3 r3 by auto
  moreover have "evaluate_v1 p3 = Rejected \<or> evaluate_v1 p3 = Accepted (Fin 25)"
    by (simp add: evaluate_v1_eq h3 nextBmi_200_100)
  ultimately have e3: "evaluate_v1 p3 = Accepted (Fin 25)" by blast
  show ?thesis using h1 n1 e1 w2 e2 e3 h3 r3 unfolding p1_def p2_def p3_def by blast
qed


text \<open>
  C4. On every accepted calculation the target of the fill animation is the clamp to the
  unit interval of the BMI less 10, over 30, so it lies between 0 and 1. A BMI of 10 maps to
  0, 25 to 0.5, 40 to 1; any BMI below 10 (as 5) maps to 0 and any above 40 (as 55) to 1.
\<close>

theorem normalized_is_clamp:
  "(valid_v1 p \<longrightarrow>
      (\<exists>r. bmi (fst (onCalculate_v1 p)) = Some r
         \<and> snd (onCalculate_v1 p) =
            [Assign reveal (withSpring (Fin 1) 14 140),
             Assign progress
               (withTiming (clamp (js_div (js_sub r (Fin 10)) (Fin 30)) (Fin 0) (Fin 1))
                  500 (Some out_cubic))]
         \<and> js_le (Fin 0) (clamp (js_div (js_sub r (Fin 10)) (Fin 30)) (Fin 0) (Fin 1))
         \<and> js_le (clamp (js_div (js_sub r (Fin 10)) (Fin 30)) (Fin 0) (Fin 1)) (Fin 1)))
   \<and> (valid_v2 p \<longrightarrow>
      (\<exists>r. bmi (fst (onCalculate_v2 p)) = Some r
         \<and> snd (onCalculate_v2 p) =
            [start (timing reveal (Fin 1) 220 True),
             start (timing progress
               (clamp (js_div (js_sub r (Fin 10)) (Fin 30)) (Fin 0) (Fin 1)) 480 False)]
            @ triggerIndicatorPop_v2
         \<and> js_le (Fin 0) (clamp (js_div (js_sub r (Fin 10)) (Fin 30)) (Fin 0) (Fin 1))
         \<and> js_le (clamp (js_div (js_sub r (Fin 10)) (Fin 30)) (Fin 0) (Fin 1)) (Fin 1)))
   \<and> (b \<noteq> NaN \<longrightarrow>
        normalized_v1 b = clamp (js_div (js_sub b (Fin 10)) (Fin 30)) (Fin 0) (Fin 1)
        \<and> normalized_v2 b = clamp (js_div (js_sub b (Fin 10)) (Fin 30)) (Fin 0) (Fin 1)
        \<and> js_le (Fin 0) (normalized_v1 b) \<and> js_le (normalized_v1 b) (Fin 1))
   \<and> (js_lt b (Fin 10) \<longrightarrow> normalized_v1 b = Fin 0 \<and> normalized_v2 b = Fin 0)
   \<and> (js_gt b (Fin 40) \<longrightarrow> normalized_v1 b = Fin 1 \<and> normalized_v2 b = Fin 1)
   \<and> normalized_v1 (Fin 10) = Fin 0 \<and> normalized_v2 (Fin 10) = Fin 0
   \<and> normalized_v1 (Fin 25) = Fin (1 / 2) \<and> normalized_v2 (Fin 25) = Fin (1 / 2)
   \<and> normalized_v1 (Fin 40) = Fin 1 \<and> normalized_v2 (Fin 40) = Fin 1
   \<and> normalized_v1 (Fin 5) = Fin 0 \<and> normalized_v2 (Fin 5) = Fin 0
   \<and> normalized_v1 (Fin 55) = Fin 1 \<and> normalized_v2 (Fin 55) = Fin 1"
proof -
  have acc: "\<exists>r. bmi (fst (onCalculate_v1 p)) = Some r
         \<and> snd (onCalculate_v1 p) =
            [Assign reveal (withSpring (Fin 1) 14 140),
             Assign progress
               (withTiming (clamp (js_div (js_sub r (Fin 10)) (Fin 30)) (Fin 0) (Fin 1))
                  500 (Some out_cubic))]
         \<and> bmi (fst (onCalculate_v2 p)) = Some r
         \<and> snd (onCalculate_v2 p) =
            [start (timing reveal (Fin 1) 220 True),
             start (timing progress
               (clamp (js_div (js_sub r (Fin 10)) (Fin 30)) (Fin 0) (Fin 1)) 480 False)]
            @ triggerIndicatorPop_v2
         \<and> js_le (Fin 0) (clamp (js_div (js_sub r (Fin 10)) (Fin 30)) (Fin 0) (Fin 1))
         \<and> js_le (clamp (js_div (js_sub r (Fin 10)) (Fin 30)) (Fin 0) (Fin 1)) (Fin 1)"
    if v: "valid_v1 p"
  proof -
    obtain r q where r: "r = Fin q"
      "onCalculate_v1 p =
        (p\<lparr>bmi := Some r\<rparr>,
         [Assign reveal (withSpring (Fin 1) 14 140),
          Assign progress (withTiming (normalized_v1 r) 500 (Some out_cubic))])"
      "onCalculate_v2 p =
        (p\<lparr>bmi := Some r\<rparr>,
         [start (timing reveal (Fin 1) 220 True),
          start (timing progress (normalized_v1 r) 480 False)] @ triggerIndicatorPop_v2)"
      using accepted_bmi[OF v] by blast
    have n: "r \<noteq> NaN" using r(1) by simp
    note c = normalized_v1_clamp[OF n]
    show ?thesis
      using c(2,3) unfolding r(2,3) c(1) by (intro exI[of _ r]) simp
  qed
  have gen: "b \<noteq> NaN \<longrightarrow>
        normalized_v1 b = clamp (js_div (js_sub b (Fin 10)) (Fin 30)) (Fin 0) (Fin 1)
        \<and> js_le (Fin 0) (normalized_v1 b) \<and> js_le (normalized_v1 b) (Fin 1)"
    using normalized_v1_clamp[of b] by blast
  have lo: "js_lt b (Fin 10) \<longrightarrow> normalized_v1 b = Fin 0" using normalized_low by blast
  have hi: "js_gt b (Fin 40) \<longrightarrow> normalized_v1 b = Fin 1" using normalized_high by blast
  show ?thesis
    unfolding valid_v2_v1 normalized_v2_v1
    using acc gen lo hi normalized_values by blast
qed

theorem normalized_is_clamp_witness:
  "valid_v1 \<lparr>heightCm = str ''200'', weightKg = str ''100'', bmi = None, barWidth = Fin 0\<rparr>
   \<and> valid_v2 \<lparr>heightCm = str ''200'', weightKg = str ''100'', bmi = None, barWidth = Fin 0\<rparr>
   \<and> bmi (fst (onCalculate_v1
        \<lparr>heightCm = str ''200'', weightKg = str ''100'', bmi = None, barWidth = Fin 0\<rparr>))
      = Some (Fin 25)
   \<and> snd (onCalculate_v1
        \<lparr>heightCm = str ''200'', weightKg = str ''100'', bmi = None, barWidth = Fin 0\<rparr>)
      = [Assign reveal (withSpring (Fin 1) 14 140),
         Assign progress (withTiming (Fin (1 / 2)) 500 (Some out_cubic))]
   \<and> snd (onCalculate_v2
        \<lparr>heightCm = str ''200'', weightKg = str ''100'', bmi = None, barWidth = Fin 0\<rparr>)
      = [start (timing reveal (Fin 1) 220 True),
         start (timing progress (Fin (1 / 2)) 480 False)] @ triggerIndicatorPop_v2
   \<and> clamp (js_div (js_sub (Fin 25) (Fin 10)) (Fin 30)) (Fin 0) (Fin 1) = Fin (1 / 2)
   \<and> js_lt (Fin 5) (Fin 10) \<and> normalized_v1 (Fin 5) = Fin 0
   \<and> js_gt PosInf (Fin 40) \<and> normalized_v2 PosInf = Fin 1"
proof -
  define p where "p = \<lparr>heightCm = str ''200'', weightKg = str ''100'', bmi = None, barWidth = Fin 0\<rparr>"
  have h: "heightValue_v1 p = Some (Fin 200)" "weightValue_v1 p = Some (Fin 100)"
    by (simp_all add: p_def heightValue_v1_def weightValue_v1_def parse_200 parse_100)
  have v: "valid_v1 p" "valid_v2 p" by (simp_all add: valid_v2_v1 valid_v1_def h js_gt_def)
  have b: "bmi (fst (onCalculate_v1 p)) = Some (Fin 25)" "bmi (fst (onCalculate_v2 p)) = Some (Fin 25)"
    using onCalculate_v1_accepted[OF v(1) h] onCalculate_v2_accepted[OF v(1) h]
    by (simp_all add: nextBmi_200_100)
  have n: "Fin 25 \<noteq> NaN" "js_lt (Fin 5) (Fin 10)" "js_gt PosInf (Fin 40)"
    by (simp_all add: js_gt_def)
  have a1: "Fin 25 \<noteq> NaN \<longrightarrow>
      normalized_v1 (Fin 25) = clamp (js_div (js_sub (Fin 25) (Fin 10)) (Fin 30)) (Fin 0) (Fin 1)"
    and a2: "normalized_v1 (Fin 25) = Fin (1 / 2)"
    using normalized_is_clamp [where b = "Fin 25" and p = p] by blast+
  have c: "clamp (js_div (js_sub (Fin 25) (Fin 10)) (Fin 30)) (Fin 0) (Fin 1) = Fin (1 / 2)"
    using a1 a2 n(1) by metis
  obtain r1 where r1: "bmi (fst (onCalculate_v1 p)) = Some r1"
    "snd (onCalculate_v1 p) =
       [Assign reveal (withSpring (Fin 1) 14 140),
        Assign progress
          (withTiming (clamp (js_div (js_sub r1 (Fin 10)) (Fin 30)) (Fin 0) (Fin 1))
             500 (Some out_cubic))]"
    using normalized_is_clamp [where b = "Fin 25" and p = p] v(1) by blast
  have "r1 = Fin 25" using r1(1) b(1) by simp
  then have 1: "snd (onCalculate_v1 p)
      = [Assign reveal (withSpring (Fin 1) 14 140),
         Assign progress (withTiming (Fin (1 / 2)) 500 (Some out_cubic))]"
    using r1(2) c by (simp only:)
  obtain r2 where r2: "bmi (fst (onCalculate_v2 p)) = Some r2"
    "snd (onCalculate_v2 p) =
       [start (timing reveal (Fin 1) 220 True),
        start (timing progress
          (clamp (js_div (js_sub r2 (Fin 10)) (Fin 30)) (Fin 0) (Fin 1)) 480 False)]
       @ triggerIndicatorPop_v2"
    using normalized_is_clamp [where b = "Fin 25" and p = p] v(2) by blast
  have "r2 = Fin 25" using r2(1) b(2) by simp
  then have 2: "snd (onCalculate_v2 p)
      = [start (timing reveal (Fin 1) 220 True),
         start (timing progress (Fin (1 / 2)) 480 False)] @ triggerIndicatorPop_v2"
    using r2(2) c by (simp only:)
  have 3: "normalized_v1 (Fin 5) = Fin 0"
    using normalized_is_clamp [where b = "Fin 5" and p = p] n(2) by blast
  have 4: "normalized_v2 PosInf = Fin 1"
    using normalized_is_clamp [where b = PosInf and p = p] n(3) by blast
  show ?thesis using v b(1) 1 2 c n(2,3) 3 4 unfolding p_def by blast
qed


section \<open>Feedback\<close>

text \<open>
  C8. On both screens every rejected calculation, whatever the state it starts from, issues
  the same commands. The shake is a sequence of five timed legs of 60 milliseconds, 300 in
  all, to the displacements -10, 10, -8, 8 and 0: the sign alternates from one leg to the
  next, the magnitude never grows and ends at rest. The result card and the scale fill are
  sent back to 0. A second rejected calculation issues them again and leaves the same state.
\<close>

theorem rejected_shake_and_collapse:
  "(\<not> valid_v1 p \<longrightarrow>
      fst (onCalculate_v1 p) = p\<lparr>bmi := None\<rparr>
      \<and> snd (onCalculate_v1 p) =
          [Assign shakeX (withSequence
             [withTiming (Fin (- 10)) 60 None, withTiming (Fin 10) 60 None,
              withTiming (Fin (- 8)) 60 None, withTiming (Fin 8) 60 None,
              withTiming (Fin 0) 60 None]),
           Assign reveal (withTiming (Fin 0) 180 None),
           Assign progress (withTiming (Fin 0) 180 None)]
      \<and> shake_v1 (snd (onCalculate_v1 p)) = [(- 10, 60), (10, 60), (- 8, 60), (8, 60), (0, 60)]
      \<and> targets_v1 reveal (snd (onCalculate_v1 p)) = [Fin 0]
      \<and> targets_v1 progress (snd (onCalculate_v1 p)) = [Fin 0]
      \<and> onCalculate_v1 (fst (onCalculate_v1 p)) = onCalculate_v1 p)
   \<and> (\<not> valid_v2 p \<longrightarrow>
      fst (onCalculate_v2 p) = p\<lparr>bmi := None\<rparr>
      \<and> snd (onCalculate_v2 p) =
          [setValue shakeX (Fin 0),
           start (sequence
             [timing shakeX (Fin (- 10)) 60 True, timing shakeX (Fin 10) 60 True,
              timing shakeX (Fin (- 8)) 60 True, timing shakeX (Fin 8) 60 True,
              timing shakeX (Fin 0) 60 True]),
           setValue indicatorPop (Fin 0),
           start (parallel [timing reveal (Fin 0) 160 True, timing progress (Fin 0) 180 False])]
      \<and> shake_v2 (snd (onCalculate_v2 p)) = [(- 10, 60), (10, 60), (- 8, 60), (8, 60), (0, 60)]
      \<and> targets_v2 reveal (snd (onCalculate_v2 p)) = [Fin 0]
      \<and> targets_v2 progress (snd (onCalculate_v2 p)) = [Fin 0]
      \<and> onCalculate_v2 (fst (onCalculate_v2 p)) = onCalculate_v2 p)
   \<and> length [(- 10, 60), (10, 60), (- 8, 60), (8, 60), (0 :: rat, 60 :: nat)] = 5
   \<and> sum_list (map snd [(- 10, 60), (10, 60), (- 8, 60), (8, 60), (0 :: rat, 60 :: nat)]) = 300
   \<and> successively (\<lambda>a b. fst a * fst b \<le> 0)
        [(- 10, 60), (10, 60), (- 8, 60), (8, 60), (0 :: rat, 60 :: nat)]
   \<and> successively (\<lambda>a b. fst a * fst b < 0)
        [(- 10, 60), (10, 60), (- 8, 60), (8 :: rat, 60 :: nat)]
   \<and> sorted_wrt (\<lambda>a b. \<bar>fst b\<bar> \<le> \<bar>fst a\<bar>)
        [(- 10, 60), (10, 60), (- 8, 60), (8, 60), (0 :: rat, 60 :: nat)]"
proof -
  have 1: "fst (onCalculate_v1 p) = p\<lparr>bmi := None\<rparr>
      \<and> snd (onCalculate_v1 p) =
          [Assign shakeX (withSequence
             [withTiming (Fin (- 10)) 60 None, withTiming (Fin 10) 60 None,
              withTiming (Fin (- 8)) 60 None, withTiming (Fin 8) 60 None,
              withTiming (Fin 0) 60 None]),
           Assign reveal (withTiming (Fin 0) 180 None),
           Assign progress (withTiming (Fin 0) 180 None)]
      \<and> shake_v1 (snd (onCalculate_v1 p)) = [(- 10, 60), (10, 60), (- 8, 60), (8, 60), (0, 60)]
      \<and> targets_v1 reveal (snd (onCalculate_v1 p)) = [Fin 0]
      \<and> targets_v1 progress (snd (onCalculate_v1 p)) = [Fin 0]
      \<and> onCalculate_v1 (fst (onCalculate_v1 p)) = onCalculate_v1 p"
    if "\<not> valid_v1 p"
    using rejected_twice_v1[OF that] shake_rejected_v1 retract_rejected_v1
    unfolding onCalculate_v1_rejected[OF that]
    by (simp add: triggerInvalidShake_v1_def)
  have 2: "fst (onCalculate_v2 p) = p\<lparr>bmi := None\<rparr>
      \<and> snd (onCalculate_v2 p) =
          [setValue shakeX (Fin 0),
           start (sequence
             [timing shakeX (Fin (- 10)) 60 True, timing shakeX (Fin 10) 60 True,
              timing shakeX (Fin (- 8)) 60 True, timing shakeX (Fin 8) 60 True,
              timing shakeX (Fin 0) 60 True]),
           setValue indicatorPop (Fin 0),
           start (parallel [timing reveal (Fin 0) 160 True, timing progress (Fin 0) 180 False])]
      \<and> shake_v2 (snd (onCalculate_v2 p)) = [(- 10, 60), (10, 60), (- 8, 60), (8, 60), (0, 60)]
      \<and> targets_v2 reveal (snd (onCalculate_v2 p)) = [Fin 0]
      \<and> targets_v2 progress (snd (onCalculate_v2 p)) = [Fin 0]
      \<and> onCalculate_v2 (fst (onCalculate_v2 p)) = onCalculate_v2 p"
    if "\<not> valid_v1 p"
    using rejected_twice_v2[OF that] shake_rejected_v2 retract_rejected_v2
    unfolding onCalculate_v2_rejected[OF that]
    by (simp add: triggerInvalidShake_v2_def)
  show ?thesis
    unfolding valid_v2_v1 using 1 2 shake_shape by blast
qed

theorem rejected_shake_and_collapse_witness:
  "\<not> valid_v1 Page_init \<and> \<not> valid_v2 (fst (onCalculate_v2 Page_init))
   \<and> fst (onCalculate_v1 Page_init) = Page_init
   \<and> shake_v1 (snd (onCalculate_v1 Page_init)) = [(- 10, 60), (10, 60), (- 8, 60), (8, 60), (0, 60)]
   \<and> targets_v1 reveal (snd (onCalculate_v1 Page_init)) = [Fin 0]
   \<and> targets_v1 progress (snd (onCalculate_v1 Page_init)) = [Fin 0]
   \<and> shake_v2 (snd (onCalculate_v2 (fst (onCalculate_v2 Page_init))))
      = [(- 10, 60), (10, 60), (- 8, 60), (8, 60), (0, 60)]
   \<and> targets_v2 reveal (snd (onCalculate_v2 (fst (onCalculate_v2 Page_init)))) = [Fin 0]
   \<and> targets_v2 progress (snd (onCalculate_v2 (fst (onCalculate_v2 Page_init)))) = [Fin 0]"
proof -
  have n: "\<not> valid_v1 Page_init"
    using parse_blank(1) by (simp add: valid_v1_def heightValue_v1_def Page_init_def str_def)
  have i: "Page_init\<lparr>bmi := None\<rparr> = Page_init" by (simp add: Page_init_def)
  have s: "fst (onCalculate_v2 Page_init) = Page_init"
    using rejected_shake_and_collapse [where p = Page_init] n i unfolding valid_v2_v1 by metis
  have n2: "\<not> valid_v2 (fst (onCalculate_v2 Page_init))" using n by (simp add: s valid_v2_v1)
  show ?thesis
    using rejected_shake_and_collapse [where p = Page_init]
      rejected_shake_and_collapse [where p = "fst (onCalculate_v2 Page_init)"] n n2 i
    by metis
qed


text \<open>
  C7, as amended. On every accepted calculation the second screen starts exactly three
  animations, each on its own: the reveal of the result card, the fill of the scale to the
  normalized position, and the pop of the indicator, a spring to 1 followed by a timing back
  to 0, reset and started right after the fill without waiting for it; the accent is that of
  the category of the stored result. The first screen has no pop: it assigns two animations
  only, the reveal and the fill, and its colour index is that of the category. The claim as
  stated, three intents on every accepted calculation, fails on the first screen.
\<close>

theorem accepted_intents:
  "(valid_v1 p \<longrightarrow>
      (\<exists>r. bmi (fst (onCalculate_v1 p)) = Some r
         \<and> snd (onCalculate_v1 p) =
            [Assign reveal (withSpring (Fin 1) 14 140),
             Assign progress (withTiming (normalized_v1 r) 500 (Some out_cubic))]
         \<and> assigned_v1 (snd (onCalculate_v1 p)) = [reveal, progress]
         \<and> targets_v1 indicatorPop (snd (onCalculate_v1 p)) = []
         \<and> bmiColor_v1 (fst (onCalculate_v1 p)) =
            (case label (getBmiCategory_v1 r) of
               Underweight \<Rightarrow> 0 | Normal \<Rightarrow> 1 | Overweight \<Rightarrow> 2 | Obese \<Rightarrow> 3)))
   \<and> (valid_v2 p \<longrightarrow>
      (\<exists>r. bmi (fst (onCalculate_v2 p)) = Some r
         \<and> snd (onCalculate_v2 p) =
            [start (timing reveal (Fin 1) 220 True),
             start (timing progress (normalized_v2 r) 480 False),
             stopAnimation indicatorPop,
             setValue indicatorPop (Fin 0),
             start (sequence
               [spring indicatorPop (Fin 1) 18 10 True, timing indicatorPop (Fin 0) 220 True])]
         \<and> started_v2 (snd (onCalculate_v2 p)) =
            [timing reveal (Fin 1) 220 True,
             timing progress (normalized_v2 r) 480 False,
             sequence [spring indicatorPop (Fin 1) 18 10 True, timing indicatorPop (Fin 0) 220 True]]
         \<and> map handles (started_v2 (snd (onCalculate_v2 p))) =
            [[reveal], [progress], [indicatorPop, indicatorPop]]
         \<and> targets_v2 indicatorPop (snd (onCalculate_v2 p)) = [Fin 1, Fin 0]
         \<and> accentHex_v2 (fst (onCalculate_v2 p)) = accentHex (getBmiCategory_v2 r)))"
proof -
  have main: "(\<exists>r. bmi (fst (onCalculate_v1 p)) = Some r
         \<and> snd (onCalculate_v1 p) =
            [Assign reveal (withSpring (Fin 1) 14 140),
             Assign progress (withTiming (normalized_v1 r) 500 (Some out_cubic))]
         \<and> assigned_v1 (snd (onCalculate_v1 p)) = [reveal, progress]
         \<and> targets_v1 indicatorPop (snd (onCalculate_v1 p)) = []
         \<and> bmiColor_v1 (fst (onCalculate_v1 p)) =
            (case label (getBmiCategory_v1 r) of
               Underweight \<Rightarrow> 0 | Normal \<Rightarrow> 1 | Overweight \<Rightarrow> 2 | Obese \<Rightarrow> 3))
     \<and> (\<exists>r. bmi (fst (onCalculate_v2 p)) = Some r
         \<and> snd (onCalculate_v2 p) =
            [start (timing reveal (Fin 1) 220 True),
             start (timing progress (normalized_v1 r) 480 False),
             stopAnimation indicatorPop,
             setValue indicatorPop (Fin 0),
             start (sequence
               [spring indicatorPop (Fin 1) 18 10 True, timing indicatorPop (Fin 0) 220 True])]
         \<and> started_v2 (snd (onCalculate_v2 p)) =
            [timing reveal (Fin 1) 220 True,
             timing progress (normalized_v1 r) 480 False,
             sequence [spring indicatorPop (Fin 1) 18 10 True, timing indicatorPop (Fin 0) 220 True]]
         \<and> map handles (started_v2 (snd (onCalculate_v2 p))) =
            [[reveal], [progress], [indicatorPop, indicatorPop]]
         \<and> targets_v2 indicatorPop (snd (onCalculate_v2 p)) = [Fin 1, Fin 0]
         \<and> accentHex_v2 (fst (onCalculate_v2 p)) = accentHex (getBmiCategory_v2 r))"
    if v: "valid_v1 p"
  proof -
    obtain q where q: "1 / 2 \<le> q"
      and 1: "onCalculate_v1 p =
        (p\<lparr>bmi := Some (Fin q)\<rparr>,
         [Assign reveal (withSpring (Fin 1) 14 140),
          Assign progress (withTiming (normalized_v1 (Fin q)) 500 (Some out_cubic))])"
      and 2: "onCalculate_v2 p =
        (p\<lparr>bmi := Some (Fin q)\<rparr>,
         [start (timing reveal (Fin 1) 220 True),
          start (timing progress (normalized_v1 (Fin q)) 480 False)] @ triggerIndicatorPop_v2)"
      using accepted_bmi_range[OF v] by blast
    have q0: "q \<noteq> 0" using q by auto
    have a: "\<exists>r. bmi (fst (onCalculate_v1 p)) = Some r
         \<and> snd (onCalculate_v1 p) =
            [Assign reveal (withSpring (Fin 1) 14 140),
             Assign progress (withTiming (normalized_v1 r) 500 (Some out_cubic))]
         \<and> assigned_v1 (snd (onCalculate_v1 p)) = [reveal, progress]
         \<and> targets_v1 indicatorPop (snd (onCalculate_v1 p)) = []
         \<and> bmiColor_v1 (fst (onCalculate_v1 p)) =
            (case label (getBmiCategory_v1 r) of
               Underweight \<Rightarrow> 0 | Normal \<Rightarrow> 1 | Overweight \<Rightarrow> 2 | Obese \<Rightarrow> 3)"
      unfolding 1
      by (intro exI[of _ "Fin q"]) (simp add: assigned_v1_def targets_v1_def bmiColor_label[OF q0])
    have b: "\<exists>r. bmi (fst (onCalculate_v2 p)) = Some r
         \<and> snd (onCalculate_v2 p) =
            [start (timing reveal (Fin 1) 220 True),
             start (timing progress (normalized_v1 r) 480 False),
             stopAnimation indicatorPop,
             setValue indicatorPop (Fin 0),
             start (sequence
               [spring indicatorPop (Fin 1) 18 10 True, timing indicatorPop (Fin 0) 220 True])]
         \<and> started_v2 (snd (onCalculate_v2 p)) =
            [timing reveal (Fin 1) 220 True,
             timing progress (normalized_v1 r) 480 False,
             sequence [spring indicatorPop (Fin 1) 18 10 True, timing indicatorPop (Fin 0) 220 True]]
         \<and> map handles (started_v2 (snd (onCalculate_v2 p))) =
            [[reveal], [progress], [indicatorPop, indicatorPop]]
         \<and> targets_v2 indicatorPop (snd (onCalculate_v2 p)) = [Fin 1, Fin 0]
         \<and> accentHex_v2 (fst (onCalculate_v2 p)) = accentHex (getBmiCategory_v2 r)"
      unfolding 2
      by (intro exI[of _ "Fin q"])
        (simp add: accent_of_result triggerIndicatorPop_v2_def started_v2_def targets_v2_def)
    show ?thesis using a b by blast
  qed
  show ?thesis unfolding valid_v2_v1 normalized_v2_v1 using main by blast
qed


theorem accepted_intents_counterexample:
  "valid_v1 \<lparr>heightCm = str ''200'', weightKg = str ''100'', bmi = None, barWidth = Fin 0\<rparr>
   \<and> evaluate_v1 \<lparr>heightCm = str ''200'', weightKg = str ''100'', bmi = None, barWidth = Fin 0\<rparr>
      = Accepted (Fin 25)
   \<and> snd (onCalculate_v1
        \<lparr>heightCm = str ''200'', weightKg = str ''100'', bmi = None, barWidth = Fin 0\<rparr>)
      = [Assign reveal (withSpring (Fin 1) 14 140),
         Assign progress (withTiming (Fin (1 / 2)) 500 (Some out_cubic))]
   \<and> length (snd (onCalculate_v1
        \<lparr>heightCm = str ''200'', weightKg = str ''100'', bmi = None, barWidth = Fin 0\<rparr>)) = 2
   \<and> targets_v1 indicatorPop (snd (onCalculate_v1
        \<lparr>heightCm = str ''200'', weightKg = str ''100'', bmi = None, barWidth = Fin 0\<rparr>)) = []"
proof -
  define p where "p = \<lparr>heightCm = str ''200'', weightKg = str ''100'', bmi = None, barWidth = Fin 0\<rparr>"
  have h: "heightValue_v1 p = Some (Fin 200)" "weightValue_v1 p = Some (Fin 100)"
    by (simp_all add: p_def heightValue_v1_def weightValue_v1_def parse_200 parse_100)
  have v: "valid_v1 p" by (simp add: valid_v1_def h js_gt_def)
  have e: "evaluate_v1 p = Accepted (Fin 25)" by (simp add: evaluate_v1_eq v h nextBmi_200_100)
  have s: "snd (onCalculate_v1 p)
      = [Assign reveal (withSpring (Fin 1) 14 140),
         Assign progress (withTiming (Fin (1 / 2)) 500 (Some out_cubic))]"
    using onCalculate_v1_accepted[OF v h] by (simp add: nextBmi_200_100 normalized_values)
  have "length (snd (onCalculate_v1 p)) = 2" "targets_v1 indicatorPop (snd (onCalculate_v1 p)) = []"
    unfolding s by (simp_all add: targets_v1_def)
  then show ?thesis using v e s unfolding p_def by blast
qed

theorem accepted_intents_witness:
  "valid_v1 \<lparr>heightCm = str ''200'', weightKg = str ''100'', bmi = None, barWidth = Fin 0\<rparr>
   \<and> valid_v2 \<lparr>heightCm = str ''200'', weightKg = str ''100'', bmi = None, barWidth = Fin 0\<rparr>
   \<and> assigned_v1 (snd (onCalculate_v1
        \<lparr>heightCm = str ''200'', weightKg = str ''100'', bmi = None, barWidth = Fin 0\<rparr>))
      = [reveal, progress]
   \<and> map handles (started_v2 (snd (onCalculate_v2
        \<lparr>heightCm = str ''200'', weightKg = str ''100'', bmi = None, barWidth = Fin 0\<rparr>)))
      = [[reveal], [progress], [indicatorPop, indicatorPop]]
   \<and> targets_v2 indicatorPop (snd (onCalculate_v2
        \<lparr>heightCm = str ''200'', weightKg = str ''100'', bmi = None, barWidth = Fin 0\<rparr>))
      = [Fin 1, Fin 0]
   \<and> targets_v2 progress (snd (onCalculate_v2
        \<lparr>heightCm = str ''200'', weightKg = str ''100'', bmi = None, barWidth = Fin 0\<rparr>))
      = [Fin (1 / 2)]
   \<and> accentHex_v2 (fst (onCalculate_v2
        \<lparr>heightCm = str ''200'', weightKg = str ''100'', bmi = None, barWidth = Fin 0\<rparr>))
      = str ''#b45309''"
proof -
  define p where "p = \<lparr>heightCm = str ''200'', weightKg = str ''100'', bmi = None, barWidth = Fin 0\<rparr>"
  have h: "heightValue_v1 p = Some (Fin 200)" "weightValue_v1 p = Some (Fin 100)"
    by (simp_all add: p_def heightValue_v1_def weightValue_v1_def parse_200 parse_100)
  have v: "valid_v1 p" "valid_v2 p" by (simp_all add: valid_v2_v1 valid_v1_def h js_gt_def)
  have b: "bmi (fst (onCalculate_v2 p)) = Some (Fin 25)"
    using onCalculate_v2_accepted[OF v(1) h] by (simp add: nextBmi_200_100)
  have 1: "assigned_v1 (snd (onCalculate_v1 p)) = [reveal, progress]"
    using accepted_intents [where p = p, THEN conjunct1, THEN mp, OF v(1)] by (elim exE conjE)
  note ex = accepted_intents [where p = p, THEN conjunct2, THEN mp, OF v(2)]
  from ex obtain r where all: "bmi (fst (onCalculate_v2 p)) = Some r
         \<and> snd (onCalculate_v2 p) =
            [start (timing reveal (Fin 1) 220 True),
             start (timing progress (normalized_v2 r) 480 False),
             stopAnimation indicatorPop,
             setValue indicatorPop (Fin 0),
             start (sequence
               [spring indicatorPop (Fin 1) 18 10 True, timing indicatorPop (Fin 0) 220 True])]
         \<and> started_v2 (snd (onCalculate_v2 p)) =
            [timing reveal (Fin 1) 220 True,
             timing progress (normalized_v2 r) 480 False,
             sequence [spring indicatorPop (Fin 1) 18 10 True, timing indicatorPop (Fin 0) 220 True]]
         \<and> map handles (started_v2 (snd (onCalculate_v2 p))) =
            [[reveal], [progress], [indicatorPop, indicatorPop]]
         \<and> targets_v2 indicatorPop (snd (onCalculate_v2 p)) = [Fin 1, Fin 0]
         \<and> accentHex_v2 (fst (onCalculate_v2 p)) = accentHex (getBmiCategory_v2 r)" ..
  note r = all [THEN conjunct1] all [THEN conjunct2, THEN conjunct1]
    all [THEN conjunct2, THEN conjunct2, THEN conjunct2, THEN conjunct1]
    all [THEN conjunct2, THEN conjunct2, THEN conjunct2, THEN conjunct2, THEN conjunct1]
    all [THEN conjunct2, THEN conjunct2, THEN conjunct2, THEN conjunct2, THEN conjunct2]
  have r25: "r = Fin 25" using r(1) b by simp
  have 2: "targets_v2 progress (snd (onCalculate_v2 p)) = [Fin (1 / 2)]"
    unfolding r(2) r25 by (simp add: targets_v2_def normalized_v2_v1 normalized_values)
  have 3: "accentHex_v2 (fst (onCalculate_v2 p)) = str ''#b45309''"
    unfolding r(5) r25 by (simp add: getBmiCategory_v2_def)
  show ?thesis using v 1 r(3,4) 2 3 unfolding p_def by (intro conjI)
qed


section \<open>The display state machine\<close>

text \<open>
  C6. The machine of the specification has the states Idle, Invalid and Result, Idle first.
  Run beside either screen from the initial state, through any sequence of events, it is
  always in a state the screen displays: no stored result in Idle and Invalid (which differ
  by the command that led there), the stored result in Result. From every state a rejected
  calculation leads to Invalid, shaking and sending the result card and the fill back to 0;
  an accepted one leads to Result with the computed value, revealing the card and filling
  the scale; a reset leads to Idle, empties both texts and sends the card and the fill back
  to 0. No state is terminal: from every state each of the three is reached again.
\<close>

theorem display_machine:
  "displays Idle Page_init
   \<and> (\<forall>es. displays (snd (run_v1 es (Page_init, Idle))) (fst (run_v1 es (Page_init, Idle))))
   \<and> (\<forall>es. displays (snd (run_v2 es (Page_init, Idle))) (fst (run_v2 es (Page_init, Idle))))
   \<and> (\<not> valid_v1 p \<longrightarrow>
      spec_step_v1 Calculate p d = Invalid
      \<and> displays Invalid (fst (onCalculate_v1 p))
      \<and> shake_v1 (snd (onCalculate_v1 p)) = [(- 10, 60), (10, 60), (- 8, 60), (8, 60), (0, 60)]
      \<and> targets_v1 reveal (snd (onCalculate_v1 p)) = [Fin 0]
      \<and> targets_v1 progress (snd (onCalculate_v1 p)) = [Fin 0])
   \<and> (\<not> valid_v2 p \<longrightarrow>
      spec_step_v2 Calculate p d = Invalid
      \<and> displays Invalid (fst (onCalculate_v2 p))
      \<and> shake_v2 (snd (onCalculate_v2 p)) = [(- 10, 60), (10, 60), (- 8, 60), (8, 60), (0, 60)]
      \<and> targets_v2 reveal (snd (onCalculate_v2 p)) = [Fin 0]
      \<and> targets_v2 progress (snd (onCalculate_v2 p)) = [Fin 0])
   \<and> (valid_v1 p \<longrightarrow>
      (\<exists>r. spec_step_v1 Calculate p d = Result r
         \<and> displays (Result r) (fst (onCalculate_v1 p))
         \<and> targets_v1 reveal (snd (onCalculate_v1 p)) = [Fin 1]
         \<and> targets_v1 progress (snd (onCalculate_v1 p)) = [normalized_v1 r]))
   \<and> (valid_v2 p \<longrightarrow>
      (\<exists>r. spec_step_v2 Calculate p d = Result r
         \<and> displays (Result r) (fst (onCalculate_v2 p))
         \<and> targets_v2 reveal (snd (onCalculate_v2 p)) = [Fin 1]
         \<and> targets_v2 progress (snd (onCalculate_v2 p)) = [normalized_v2 r]
         \<and> targets_v2 indicatorPop (snd (onCalculate_v2 p)) = [Fin 1, Fin 0]))
   \<and> spec_step_v1 Reset p d = Idle
   \<and> displays Idle (fst (onReset_v1 p))
   \<and> heightCm (fst (onReset_v1 p)) = [] \<and> weightKg (fst (onReset_v1 p)) = []
   \<and> targets_v1 reveal (snd (onReset_v1 p)) = [Fin 0]
   \<and> targets_v1 progress (snd (onReset_v1 p)) = [Fin 0]
   \<and> spec_step_v2 Reset p d = Idle
   \<and> displays Idle (fst (onReset_v2 p))
   \<and> heightCm (fst (onReset_v2 p)) = [] \<and> weightKg (fst (onReset_v2 p)) = []
   \<and> targets_v2 reveal (snd (onReset_v2 p)) = [Fin 0]
   \<and> targets_v2 progress (snd (onReset_v2 p)) = [Fin 0]
   \<and> snd (run_v1 [Reset] (p, d)) = Idle
   \<and> snd (run_v1 [setHeightCm [], Calculate] (p, d)) = Invalid
   \<and> (\<exists>r. snd (run_v1 [setHeightCm (str ''172''), setWeightKg (str ''68''), Calculate] (p, d))
          = Result r)
   \<and> snd (run_v2 [Reset] (p, d)) = Idle
   \<and> snd (run_v2 [setHeightCm [], Calculate] (p, d)) = Invalid
   \<and> (\<exists>r. snd (run_v2 [setHeightCm (str ''172''), setWeightKg (str ''68''), Calculate] (p, d))
          = Result r)"
proof -
  have s1: "(\<forall>es. displays (snd (run_v1 es (Page_init, Idle))) (fst (run_v1 es (Page_init, Idle))))"
    using run_displays_v1[of "(Page_init, Idle)"] displays_init by simp
  have s2: "(\<forall>es. displays (snd (run_v2 es (Page_init, Idle))) (fst (run_v2 es (Page_init, Idle))))"
    using s1 unfolding run_v2_v1 .
  have r1: "(\<not> valid_v1 p \<longrightarrow>
      spec_step_v1 Calculate p d = Invalid
      \<and> displays Invalid (fst (onCalculate_v1 p))
      \<and> shake_v1 (snd (onCalculate_v1 p)) = [(- 10, 60), (10, 60), (- 8, 60), (8, 60), (0, 60)]
      \<and> targets_v1 reveal (snd (onCalculate_v1 p)) = [Fin 0]
      \<and> targets_v1 progress (snd (onCalculate_v1 p)) = [Fin 0])"
  proof
    assume n: "\<not> valid_v1 p"
    show "spec_step_v1 Calculate p d = Invalid
      \<and> displays Invalid (fst (onCalculate_v1 p))
      \<and> shake_v1 (snd (onCalculate_v1 p)) = [(- 10, 60), (10, 60), (- 8, 60), (8, 60), (0, 60)]
      \<and> targets_v1 reveal (snd (onCalculate_v1 p)) = [Fin 0]
      \<and> targets_v1 progress (snd (onCalculate_v1 p)) = [Fin 0]"
      unfolding onCalculate_v1_rejected[OF n]
      using calculate_rejected_spec[OF n] shake_rejected_v1 retract_rejected_v1 by simp
  qed
  have r2: "(\<not> valid_v2 p \<longrightarrow>
      spec_step_v2 Calculate p d = Invalid
      \<and> displays Invalid (fst (onCalculate_v2 p))
      \<and> shake_v2 (snd (onCalculate_v2 p)) = [(- 10, 60), (10, 60), (- 8, 60), (8, 60), (0, 60)]
      \<and> targets_v2 reveal (snd (onCalculate_v2 p)) = [Fin 0]
      \<and> targets_v2 progress (snd (onCalculate_v2 p)) = [Fin 0])"
  proof
    assume "\<not> valid_v2 p"
    then have n: "\<not> valid_v1 p" by (simp add: valid_v2_v1)
    have e: "spec_step_v2 Calculate p d = spec_step_v1 Calculate p d" by (simp add: evaluate_v2_v1)
    show "spec_step_v2 Calculate p d = Invalid
      \<and> displays Invalid (fst (onCalculate_v2 p))
      \<and> shake_v2 (snd (onCalculate_v2 p)) = [(- 10, 60), (10, 60), (- 8, 60), (8, 60), (0, 60)]
      \<and> targets_v2 reveal (snd (onCalculate_v2 p)) = [Fin 0]
      \<and> targets_v2 progress (snd (onCalculate_v2 p)) = [Fin 0]"
      unfolding onCalculate_v2_rejected[OF n] e
      using calculate_rejected_spec[OF n] shake_rejected_v2 retract_rejected_v2 by simp
  qed
  have a1: "(valid_v1 p \<longrightarrow>
      (\<exists>r. spec_step_v1 Calculate p d = Result r
         \<and> displays (Result r) (fst (onCalculate_v1 p))
         \<and> targets_v1 reveal (snd (onCalculate_v1 p)) = [Fin 1]
         \<and> targets_v1 progress (snd (onCalculate_v1 p)) = [normalized_v1 r]))"
    using accepted_targets[of p d] by blast
  have a2: "(valid_v2 p \<longrightarrow>
      (\<exists>r. spec_step_v2 Calculate p d = Result r
         \<and> displays (Result r) (fst (onCalculate_v2 p))
         \<and> targets_v2 reveal (snd (onCalculate_v2 p)) = [Fin 1]
         \<and> targets_v2 progress (snd (onCalculate_v2 p)) = [normalized_v2 r]
         \<and> targets_v2 indicatorPop (snd (onCalculate_v2 p)) = [Fin 1, Fin 0]))"
  proof
    assume "valid_v2 p"
    then have v: "valid_v1 p" by (simp add: valid_v2_v1)
    have e: "spec_step_v2 Calculate p d = spec_step_v1 Calculate p d" by (simp add: evaluate_v2_v1)
    show "\<exists>r. spec_step_v2 Calculate p d = Result r
         \<and> displays (Result r) (fst (onCalculate_v2 p))
         \<and> targets_v2 reveal (snd (onCalculate_v2 p)) = [Fin 1]
         \<and> targets_v2 progress (snd (onCalculate_v2 p)) = [normalized_v2 r]
         \<and> targets_v2 indicatorPop (snd (onCalculate_v2 p)) = [Fin 1, Fin 0]"
      unfolding e onCalculate_state_v2_v1 onCalculate_targets_v2_v1 normalized_v2_v1
      using accepted_targets[OF v, of d] by blast
  qed
  have t1: "spec_step_v1 Reset p d = Idle"
    "displays Idle (fst (onReset_v1 p))"
    "heightCm (fst (onReset_v1 p)) = []" "weightKg (fst (onReset_v1 p)) = []"
    "targets_v1 reveal (snd (onReset_v1 p)) = [Fin 0]"
    "targets_v1 progress (snd (onReset_v1 p)) = [Fin 0]"
    using reset_facts by simp_all
  have t2: "spec_step_v2 Reset p d = Idle"
    "displays Idle (fst (onReset_v2 p))"
    "heightCm (fst (onReset_v2 p)) = []" "weightKg (fst (onReset_v2 p)) = []"
    "targets_v2 reveal (snd (onReset_v2 p)) = [Fin 0]"
    "targets_v2 progress (snd (onReset_v2 p)) = [Fin 0]"
    using reset_facts unfolding onReset_v2_v1 by (simp_all add: spec_onReset_def)
  have c1: "snd (run_v1 [Reset] (p, d)) = Idle"
    "snd (run_v1 [setHeightCm [], Calculate] (p, d)) = Invalid"
    "\<exists>r. snd (run_v1 [setHeightCm (str ''172''), setWeightKg (str ''68''), Calculate] (p, d))
          = Result r"
    using reach_invalid[of p d] reach_result[of p d] by (simp_all add: spec_onReset_def)
  have c2: "snd (run_v2 [Reset] (p, d)) = Idle"
    "snd (run_v2 [setHeightCm [], Calculate] (p, d)) = Invalid"
    "\<exists>r. snd (run_v2 [setHeightCm (str ''172''), setWeightKg (str ''68''), Calculate] (p, d))
          = Result r"
    using c1 unfolding run_v2_v1 .
  show ?thesis
    using displays_init s1 s2 r1 r2 a1 a2 t1 t2 c1 c2 by (intro conjI)
qed


theorem display_machine_witness:
  "\<not> valid_v1 Page_init
   \<and> spec_step_v1 Calculate Page_init Idle = Invalid
   \<and> displays Invalid (fst (onCalculate_v1 Page_init))
   \<and> shake_v1 (snd (onCalculate_v1 Page_init)) = [(- 10, 60), (10, 60), (- 8, 60), (8, 60), (0, 60)]
   \<and> targets_v1 reveal (snd (onCalculate_v1 Page_init)) = [Fin 0]
   \<and> targets_v1 progress (snd (onCalculate_v1 Page_init)) = [Fin 0]
   \<and> valid_v2 \<lparr>heightCm = str ''200'', weightKg = str ''100'', bmi = None, barWidth = Fin 0\<rparr>
   \<and> spec_step_v2 Calculate \<lparr>heightCm = str ''200'', weightKg = str ''100'', bmi = None, barWidth = Fin 0\<rparr> Invalid
      = Result (Fin 25)
   \<and> displays (Result (Fin 25)) (fst (onCalculate_v2 \<lparr>heightCm = str ''200'', weightKg = str ''100'', bmi = None, barWidth = Fin 0\<rparr>))
   \<and> targets_v2 progress (snd (onCalculate_v2 \<lparr>heightCm = str ''200'', weightKg = str ''100'', bmi = None, barWidth = Fin 0\<rparr>))
      = [Fin (1 / 2)]
   \<and> targets_v2 indicatorPop (snd (onCalculate_v2 \<lparr>heightCm = str ''200'', weightKg = str ''100'', bmi = None, barWidth = Fin 0\<rparr>))
      = [Fin 1, Fin 0]"
proof -
  define p where "p = \<lparr>heightCm = str ''200'', weightKg = str ''100'', bmi = None, barWidth = Fin 0\<rparr>"
  note m0 = display_machine [where p = Page_init and d = Idle]
  note m1 = display_machine [where p = p and d = Invalid]
  have n: "\<not> valid_v1 Page_init"
    using parse_blank(1) by (simp add: valid_v1_def heightValue_v1_def Page_init_def str_def)
  from m0 have "\<not> valid_v1 Page_init \<longrightarrow>
      spec_step_v1 Calculate Page_init Idle = Invalid
      \<and> displays Invalid (fst (onCalculate_v1 Page_init))
      \<and> shake_v1 (snd (onCalculate_v1 Page_init)) = [(- 10, 60), (10, 60), (- 8, 60), (8, 60), (0, 60)]
      \<and> targets_v1 reveal (snd (onCalculate_v1 Page_init)) = [Fin 0]
      \<and> targets_v1 progress (snd (onCalculate_v1 Page_init)) = [Fin 0]"
    by (elim conjE)
  then have a: "spec_step_v1 Calculate Page_init Idle = Invalid
      \<and> displays Invalid (fst (onCalculate_v1 Page_init))
      \<and> shake_v1 (snd (onCalculate_v1 Page_init)) = [(- 10, 60), (10, 60), (- 8, 60), (8, 60), (0, 60)]
      \<and> targets_v1 reveal (snd (onCalculate_v1 Page_init)) = [Fin 0]
      \<and> targets_v1 progress (snd (onCalculate_v1 Page_init)) = [Fin 0]"
    using n by (rule mp)
  have h: "heightValue_v1 p = Some (Fin 200)" "weightValue_v1 p = Some (Fin 100)"
    by (simp_all add: p_def heightValue_v1_def weightValue_v1_def parse_200 parse_100)
  have v1: "valid_v1 p" by (simp add: valid_v1_def h js_gt_def)
  then have v: "valid_v2 p" by (simp add: valid_v2_v1)
  have e: "spec_step_v2 Calculate p Invalid = Result (Fin 25)"
    by (simp add: evaluate_v2_v1 evaluate_v1_eq v1 h nextBmi_200_100)
  from m1 have "valid_v2 p \<longrightarrow>
      (\<exists>r. spec_step_v2 Calculate p Invalid = Result r
         \<and> displays (Result r) (fst (onCalculate_v2 p))
         \<and> targets_v2 reveal (snd (onCalculate_v2 p)) = [Fin 1]
         \<and> targets_v2 progress (snd (onCalculate_v2 p)) = [normalized_v2 r]
         \<and> targets_v2 indicatorPop (snd (onCalculate_v2 p)) = [Fin 1, Fin 0])"
    by (elim conjE)
  then have "\<exists>r. spec_step_v2 Calculate p Invalid = Result r
         \<and> displays (Result r) (fst (onCalculate_v2 p))
         \<and> targets_v2 reveal (snd (onCalculate_v2 p)) = [Fin 1]
         \<and> targets_v2 progress (snd (onCalculate_v2 p)) = [normalized_v2 r]
         \<and> targets_v2 indicatorPop (snd (onCalculate_v2 p)) = [Fin 1, Fin 0]"
    using v by (rule mp)
  then obtain r where r: "spec_step_v2 Calculate p Invalid = Result r
         \<and> displays (Result r) (fst (onCalculate_v2 p))
         \<and> targets_v2 reveal (snd (onCalculate_v2 p)) = [Fin 1]
         \<and> targets_v2 progress (snd (onCalculate_v2 p)) = [normalized_v2 r]
         \<and> targets_v2 indicatorPop (snd (onCalculate_v2 p)) = [Fin 1, Fin 0]" ..
  have r25: "r = Fin 25" using r [THEN conjunct1] e by simp
  have b: "displays (Result (Fin 25)) (fst (onCalculate_v2 p))"
    "targets_v2 progress (snd (onCalculate_v2 p)) = [Fin (1 / 2)]"
    "targets_v2 indicatorPop (snd (onCalculate_v2 p)) = [Fin 1, Fin 0]"
    using r unfolding r25 by (simp_all add: normalized_v2_v1 normalized_values)
  show ?thesis using n a v e b unfolding p_def by (elim conjE) (intro conjI)
qed

section \<open>The two screens\<close>

text \<open>
  C9. The two screens compute the same: for every text the same parsed value; for every BMI
  the same label, range and hint (the colour class differs) and the same displayed string;
  for every state the same acceptance, the same stored result and the same targets of the
  reveal and fill animations, on calculation and on reset.
\<close>

theorem variants_agree:
  "parseNumber_v1 s = parseNumber_v2 s
   \<and> label (getBmiCategory_v1 b) = label (getBmiCategory_v2 b)
   \<and> rangeLabel (getBmiCategory_v1 b) = rangeLabel (getBmiCategory_v2 b)
   \<and> hint (getBmiCategory_v1 b) = hint (getBmiCategory_v2 b)
   \<and> colorClass (getBmiCategory_v1 b) \<noteq> colorClass (getBmiCategory_v2 b)
   \<and> round1_v1 big b = round1_v2 big b
   \<and> valid_v1 p = valid_v2 p
   \<and> evaluate_v1 p = evaluate_v2 p
   \<and> nextBmi_v1 h w = nextBmi_v2 h w
   \<and> normalized_v1 b = normalized_v2 b
   \<and> fst (onCalculate_v1 p) = fst (onCalculate_v2 p)
   \<and> targets_v1 progress (snd (onCalculate_v1 p)) = targets_v2 progress (snd (onCalculate_v2 p))
   \<and> targets_v1 reveal (snd (onCalculate_v1 p)) = targets_v2 reveal (snd (onCalculate_v2 p))
   \<and> fst (onReset_v1 p) = fst (onReset_v2 p)
   \<and> targets_v1 progress (snd (onReset_v1 p)) = targets_v2 progress (snd (onReset_v2 p))
   \<and> targets_v1 reveal (snd (onReset_v1 p)) = targets_v2 reveal (snd (onReset_v2 p))
   \<and> fst (step_v1 e p) = fst (step_v2 e p)"
  using parseNumber_v2_v1 [of s, symmetric] category_fields [of b] colorClass_differs [of b]
    round1_v2_v1 [of big b, symmetric] valid_v2_v1 [of p, symmetric]
    evaluate_v2_v1 [of p, symmetric] nextBmi_v2_v1 [of h w, symmetric]
    normalized_v2_v1 [of b, symmetric] onCalculate_state_v2_v1 [of p, symmetric]
    onCalculate_targets_v2_v1 [of p, symmetric] onReset_v2_v1 [of p, symmetric]
    step_state_v2_v1 [of e p, symmetric]
  by (intro conjI)

theorem variants_agree_witness:
  "parseNumber_v2 (str ''68,5'') = Some (Fin (685 / 10))
   \<and> label (getBmiCategory_v2 (Fin 22)) = Normal
   \<and> rangeLabel (getBmiCategory_v2 (Fin 22)) = str ''18.5 '' @ [0x2013] @ str '' 24.9''
   \<and> round1_v2 (\<lambda>q. []) (Fin (2299 / 100)) = str ''23.0''
   \<and> evaluate_v2 \<lparr>heightCm = str ''200'', weightKg = str ''100'', bmi = None, barWidth = Fin 0\<rparr>
      = Accepted (Fin 25)
   \<and> normalized_v2 (Fin 25) = Fin (1 / 2)"
proof -
  define p where "p = \<lparr>heightCm = str ''200'', weightKg = str ''100'', bmi = None, barWidth = Fin 0\<rparr>"
  note t = variants_agree [where s = "str ''68,5''" and b = "Fin 22" and big = "\<lambda>q. []" and p = p]
  note u = variants_agree [where b = "Fin (2299 / 100)" and big = "\<lambda>q. []" and p = p]
  note w = variants_agree [where b = "Fin 25" and p = p]
  have h: "heightValue_v1 p = Some (Fin 200)" "weightValue_v1 p = Some (Fin 100)"
    by (simp_all add: p_def heightValue_v1_def weightValue_v1_def parse_200 parse_100)
  have v: "valid_v1 p" by (simp add: valid_v1_def h js_gt_def)
  have e: "evaluate_v1 p = Accepted (Fin 25)" by (simp add: evaluate_v1_eq v h nextBmi_200_100)
  have 1: "parseNumber_v2 (str ''68,5'') = Some (Fin (685 / 10))"
    using t [THEN conjunct1] parse_68_5 by metis
  have l: "label (getBmiCategory_v1 (Fin 22)) = Normal"
    "rangeLabel (getBmiCategory_v1 (Fin 22)) = str ''18.5 '' @ [0x2013] @ str '' 24.9''"
    by (simp_all add: getBmiCategory_v1_def)
  have 2: "label (getBmiCategory_v2 (Fin 22)) = Normal"
    using t [THEN conjunct2, THEN conjunct1] l(1) by metis
  have 3: "rangeLabel (getBmiCategory_v2 (Fin 22)) = str ''18.5 '' @ [0x2013] @ str '' 24.9''"
    using t [THEN conjunct2, THEN conjunct2, THEN conjunct1] l(2) by metis
  have r: "round1_v1 (\<lambda>q. []) (Fin (2299 / 100)) = str ''23.0''" by (rule round1_23) simp_all
  have 4: "round1_v2 (\<lambda>q. []) (Fin (2299 / 100)) = str ''23.0''"
    using u [THEN conjunct2, THEN conjunct2, THEN conjunct2, THEN conjunct2, THEN conjunct2,
      THEN conjunct1] r by metis
  have 5: "evaluate_v2 p = Accepted (Fin 25)"
    using w [THEN conjunct2, THEN conjunct2, THEN conjunct2, THEN conjunct2, THEN conjunct2,
      THEN conjunct2, THEN conjunct2, THEN conjunct1] e by metis
  have 6: "normalized_v2 (Fin 25) = Fin (1 / 2)"
    using w [THEN conjunct2, THEN conjunct2, THEN conjunct2, THEN conjunct2, THEN conjunct2,
      THEN conjunct2, THEN conjunct2, THEN conjunct2, THEN conjunct2, THEN conjunct1]
      normalized_values(2) by metis
  show ?thesis using 1 2 3 4 5 6 unfolding p_def by (intro conjI)
qed



end
